theory Spec2Isabelle
  imports Main "HOL-Library.Sublist"
begin

section \<open>Python values, errors and dictionaries\<close>

text \<open>
  The module \<^verbatim>\<open>expectations_evaluator.py\<close> is glue between a pipeline framework and a
  validation library. Its data are Python dictionaries, strings and paths; its effects are
  file operations, log records and exceptions. This section fixes how they are embedded.

  A Python dictionary is an association list in insertion order; a well-formed dictionary
  has pairwise distinct keys. Reading \<^verbatim>\<open>d[k]\<close> raises \<^verbatim>\<open>KeyError\<close> on a missing key, and
  \<^verbatim>\<open>d[k] = v\<close> replaces the value of an existing key in place or appends a new item.
\<close>

datatype pyval =
    PNone
  | PBool bool
  | PInt int
  | PStr string
  | PList "pyval list"
  | PDict "(string \<times> pyval) list"

type_synonym 'v dict = "(string \<times> 'v) list"

type_synonym path = "string list"

datatype error =
    KeyError string
  | IndexError
  | TypeError
  | FileNotFoundError path
  | FileExistsError path
  | NotADirectoryError path
  | IsADirectoryError path
  | SameFileError path
  | LibraryError string
  | UnboundLocalError string
  | FailedValidationException "pyval list"

definition dict_keys :: "'v dict \<Rightarrow> string list" where
  "dict_keys d = map fst d"

definition dict_items :: "'v dict \<Rightarrow> (string \<times> 'v) list" where
  "dict_items d = d"

definition dict_getitem :: "'v dict \<Rightarrow> string \<Rightarrow> error + 'v" where
  "dict_getitem d k = (case map_of d k of None \<Rightarrow> Inl (KeyError k) | Some v \<Rightarrow> Inr v)"

fun dict_setitem :: "('k \<times> 'v) list \<Rightarrow> 'k \<Rightarrow> 'v \<Rightarrow> ('k \<times> 'v) list" where
  "dict_setitem [] k v = [(k, v)]"
| "dict_setitem ((k', v') # d) k v =
     (if k' = k then (k, v) # d else (k', v') # dict_setitem d k v)"

definition wf_dict :: "('k \<times> 'v) list \<Rightarrow> bool" where
  "wf_dict d = distinct (map fst d)"

section \<open>Config scanners\<close>

text \<open>
  Both scanners read the merged catalog configuration from the project context
  (\<^verbatim>\<open>project_context.config_loader.get("catalog*", "catalog*/**")\<close>): a dictionary from
  dataset names to entries, each entry a dictionary of its own. The context is a record
  holding what that call returns.
\<close>

type_synonym catalog = "pyval dict dict"

record KedroContext =
  config_loader_get_catalog :: catalog

text \<open>
  \<^verbatim>\<open>
  suites = {
      name: catalog[name]["expectations_suite"]
      for name in datasets
      if "expectations_suite" in catalog[name].keys()
  }
  \<close>
  The comprehension is a loop over the dataset names that inserts into the dictionary
  built so far; every subscript may raise.
\<close>

fun suites_comprehension :: "catalog \<Rightarrow> string list \<Rightarrow> pyval dict \<Rightarrow> error + pyval dict" where
  "suites_comprehension catalog [] suites = Inr suites"
| "suites_comprehension catalog (name # datasets) suites =
     (case dict_getitem catalog name of
        Inl e \<Rightarrow> Inl e
      | Inr entry \<Rightarrow>
          if ''expectations_suite'' \<in> set (dict_keys entry) then
            (case dict_getitem catalog name of
               Inl e \<Rightarrow> Inl e
             | Inr entry' \<Rightarrow>
                 (case dict_getitem entry' ''expectations_suite'' of
                    Inl e \<Rightarrow> Inl e
                  | Inr suite \<Rightarrow>
                      suites_comprehension catalog datasets (dict_setitem suites name suite)))
          else suites_comprehension catalog datasets suites)"

definition get_names_and_expectations_suite :: "KedroContext \<Rightarrow> error + pyval dict" where
  "get_names_and_expectations_suite project_context =
     (let catalog = config_loader_get_catalog project_context;
          datasets = dict_keys catalog
      in suites_comprehension catalog datasets [])"

text \<open>
  \<^verbatim>\<open>
  catalog = {
      name: {key: val for key, val in catalog[name].items() if key != "expectations_suite"}
      for name in catalog.keys()
  }
  \<close>
\<close>

fun entry_comprehension :: "(string \<times> pyval) list \<Rightarrow> pyval dict \<Rightarrow> pyval dict" where
  "entry_comprehension [] entry = entry"
| "entry_comprehension ((key, val) # items) entry =
     (if key \<noteq> ''expectations_suite''
      then entry_comprehension items (dict_setitem entry key val)
      else entry_comprehension items entry)"

fun catalog_comprehension :: "catalog \<Rightarrow> string list \<Rightarrow> catalog \<Rightarrow> error + catalog" where
  "catalog_comprehension catalog [] stripped = Inr stripped"
| "catalog_comprehension catalog (name # names) stripped =
     (case dict_getitem catalog name of
        Inl e \<Rightarrow> Inl e
      | Inr entry \<Rightarrow>
          catalog_comprehension catalog names
            (dict_setitem stripped name (entry_comprehension (dict_items entry) [])))"

definition remove_expectations_suite_from_catalog :: "KedroContext \<Rightarrow> error + catalog" where
  "remove_expectations_suite_from_catalog project_context =
     (let catalog = config_loader_get_catalog project_context
      in catalog_comprehension catalog (dict_keys catalog) [])"

section \<open>Validation results\<close>

text \<open>
  The validation library owns the result schema: a success flag, summary statistics, one
  outcome per expectation and metadata. An outcome carries its own success flag and the
  expectation's configuration, whose keyword arguments are a dictionary that differs from
  one expectation type to the next (a table-level expectation has no \<^verbatim>\<open>column\<close>).
\<close>

record expectation_config =
  expectation_type :: string
  kwargs :: "pyval dict"

record validation_result =
  result_success :: bool
  expectation_config :: expectation_config

record validation =
  success :: bool
  statistics :: pyval
  results :: "validation_result list"
  meta :: "pyval dict"

section \<open>Paths and the file system\<close>

text \<open>
  A path, as \<^verbatim>\<open>pathlib\<close> holds it, is the list of its components. A path string is parsed
  as \<^verbatim>\<open>pathlib\<close> does on POSIX: split at \<^verbatim>\<open>/\<close>, empty and \<^verbatim>\<open>.\<close> components dropped, and a
  string starting with \<^verbatim>\<open>/\<close> is absolute. Joining a path with an absolute segment yields
  the segment. \<^verbatim>\<open>pathlib\<close> keeps the components \<^verbatim>\<open>..\<close> of a path; the operating system
  resolves them, against the directories there are, when the path is used. Symbolic links
  are not modelled.
\<close>

definition keep_component :: "string \<Rightarrow> bool" where
  "keep_component c = (c \<noteq> [] \<and> c \<noteq> ''.'')"

fun components_from :: "string \<Rightarrow> string \<Rightarrow> string list" where
  "components_from cur [] = (if keep_component cur then [cur] else [])"
| "components_from cur (c # cs) =
     (if c = CHR ''/''
      then (if keep_component cur then [cur] else []) @ components_from [] cs
      else components_from (cur @ [c]) cs)"

definition components :: "string \<Rightarrow> string list" where
  "components s = components_from [] s"

definition is_absolute :: "string \<Rightarrow> bool" where
  "is_absolute s = (case s of [] \<Rightarrow> False | c # cs \<Rightarrow> c = CHR ''/'')"

definition anchor :: "string \<Rightarrow> string" where
  "anchor s = (if take 2 s = ''//'' \<and> take 3 s \<noteq> ''///'' then ''//'' else ''/'')"

text \<open>\<^verbatim>\<open>Path(p) / s\<close> for an absolute path \<open>p\<close>; also the absolute path that the path string
  \<open>s\<close> stands for in the working directory \<open>p\<close>. Components \<^verbatim>\<open>..\<close> stay in the result.\<close>

definition joinpath :: "path \<Rightarrow> string \<Rightarrow> path" where
  "joinpath p s = (if is_absolute s then components s else p @ components s)"

text \<open>\<^verbatim>\<open>Path(s).parts[-1]\<close>: the parts of an absolute path start with its anchor.\<close>

definition last_part :: "string \<Rightarrow> error + string" where
  "last_part s =
     (case components s of
        [] \<Rightarrow> if is_absolute s then Inr (anchor s) else Inl IndexError
      | c # cs \<Rightarrow> Inr (last (c # cs)))"

fun join_slash :: "string list \<Rightarrow> string" where
  "join_slash [] = []"
| "join_slash [c] = c"
| "join_slash (c # cs) = c @ ''/'' @ join_slash cs"

text \<open>\<^verbatim>\<open>str(Path(s))\<close>\<close>

definition path_str :: "string \<Rightarrow> string" where
  "path_str s =
     (if is_absolute s then anchor s @ join_slash (components s)
      else if components s = [] then ''.''
      else join_slash (components s))"

datatype content =
    Text string
  | ValidationJson validation
  | ProjectConfig "pyval dict"

datatype node = File content | Directory

text \<open>
  The file system maps locations to nodes. A location is the list of the names that lead
  to it from the root, so that no component of a location is \<^verbatim>\<open>..\<close>; the root is the empty
  list, and it is a directory.
\<close>

type_synonym fs = "(path \<times> node) list"

definition node_at :: "fs \<Rightarrow> path \<Rightarrow> node option" where
  "node_at f q = (if q = [] then Some Directory else map_of f q)"

text \<open>One step of path resolution from a directory: \<^verbatim>\<open>..\<close> leads to its parent (the root is
  its own parent), a name leads to the entry of that name.\<close>

definition descend :: "path \<Rightarrow> string \<Rightarrow> path" where
  "descend cur c = (if c = ''..'' then butlast cur else cur @ [c])"

text \<open>
  Path resolution by the operating system: the components are followed one by one, each
  from a directory that exists. The location that the last component leads to need not
  exist. An error carries the path the caller used.
\<close>

fun walk :: "fs \<Rightarrow> path \<Rightarrow> path \<Rightarrow> string list \<Rightarrow> error + path" where
  "walk f p cur [] = Inr cur"
| "walk f p cur (c # cs) =
     (case node_at f cur of
        None \<Rightarrow> Inl (FileNotFoundError p)
      | Some (File x) \<Rightarrow> Inl (NotADirectoryError p)
      | Some Directory \<Rightarrow> walk f p (descend cur c) cs)"

definition lookup :: "fs \<Rightarrow> path \<Rightarrow> error + path" where
  "lookup f p = walk f p [] p"

text \<open>\<^verbatim>\<open>os.stat(p)\<close>, as far as the kind of the node and a file's content go.\<close>

definition stat :: "fs \<Rightarrow> path \<Rightarrow> error + node" where
  "stat f p =
     (case lookup f p of
        Inl e \<Rightarrow> Inl e
      | Inr q \<Rightarrow> (case node_at f q of None \<Rightarrow> Inl (FileNotFoundError p) | Some n \<Rightarrow> Inr n))"

text \<open>\<^verbatim>\<open>Path.is_dir\<close> and \<^verbatim>\<open>Path.is_file\<close> answer \<^verbatim>\<open>False\<close> when the path leads nowhere.\<close>

definition is_dir :: "fs \<Rightarrow> path \<Rightarrow> bool" where
  "is_dir f p = (case stat f p of Inr Directory \<Rightarrow> True | _ \<Rightarrow> False)"

definition is_file :: "fs \<Rightarrow> path \<Rightarrow> bool" where
  "is_file f p = (case stat f p of Inr (File c) \<Rightarrow> True | _ \<Rightarrow> False)"

text \<open>\<^verbatim>\<open>Path.iterdir\<close>: the entries directly below a directory, each as the path of the
  directory joined with the entry's name.\<close>

definition iterdir :: "fs \<Rightarrow> path \<Rightarrow> error + path list" where
  "iterdir f p =
     (case stat f p of
        Inl e \<Rightarrow> Inl e
      | Inr (File c) \<Rightarrow> Inl (NotADirectoryError p)
      | Inr Directory \<Rightarrow>
          (case lookup f p of
             Inl e \<Rightarrow> Inl e
           | Inr q \<Rightarrow>
               Inr (map (\<lambda>k. p @ [last k])
                      (remdups (filter (\<lambda>k. k \<noteq> [] \<and> butlast k = q) (map fst f))))))"

text \<open>\<^verbatim>\<open>os.mkdir(p)\<close>: the parent has to be a directory and the path must not lead to
  anything yet.\<close>

definition os_mkdir :: "fs \<Rightarrow> path \<Rightarrow> error + fs" where
  "os_mkdir f p =
     (case lookup f p of
        Inl e \<Rightarrow> Inl e
      | Inr q \<Rightarrow>
          if p = [] \<or> last p = ''..'' \<or> node_at f q \<noteq> None
          then Inl (FileExistsError p)
          else Inr (dict_setitem f q Directory))"

definition not_found :: "error \<Rightarrow> bool" where
  "not_found e = (case e of FileNotFoundError q \<Rightarrow> True | _ \<Rightarrow> False)"

text \<open>
  \<^verbatim>\<open>Path.mkdir\<close> of \<^verbatim>\<open>pathlib\<close> tries \<^verbatim>\<open>os.mkdir\<close>. With \<^verbatim>\<open>exist_ok=True\<close> every error but
  \<^verbatim>\<open>FileNotFoundError\<close> is dropped when the path is a directory. With \<^verbatim>\<open>parents=True\<close> a
  \<^verbatim>\<open>FileNotFoundError\<close> makes it create the parent in the same way and then try once more,
  without \<^verbatim>\<open>parents\<close>; the parent of the root is the root, for which the error is raised.
\<close>

definition mkdir_exist_ok :: "fs \<Rightarrow> path \<Rightarrow> error + fs" where
  "mkdir_exist_ok f p =
     (case os_mkdir f p of
        Inr f' \<Rightarrow> Inr f'
      | Inl e \<Rightarrow> if \<not> not_found e \<and> is_dir f p then Inr f else Inl e)"

fun mkdir_parents_exist_ok :: "fs \<Rightarrow> path \<Rightarrow> error + fs" where
  "mkdir_parents_exist_ok f p =
     (case os_mkdir f p of
        Inr f' \<Rightarrow> Inr f'
      | Inl e \<Rightarrow>
          if not_found e
          then (if p = [] then Inl e
                else (case mkdir_parents_exist_ok f (butlast p) of
                        Inl e' \<Rightarrow> Inl e'
                      | Inr f1 \<Rightarrow> mkdir_exist_ok f1 p))
          else if is_dir f p then Inr f else Inl e)"

declare mkdir_parents_exist_ok.simps [simp del]

text \<open>\<^verbatim>\<open>open(p, "w")\<close> followed by writing the content and closing the file: the parent has
  to be a directory; an existing file is overwritten.\<close>

definition write_file :: "fs \<Rightarrow> path \<Rightarrow> content \<Rightarrow> error + fs" where
  "write_file f p c =
     (case lookup f p of
        Inl e \<Rightarrow> Inl e
      | Inr q \<Rightarrow>
          if p = [] \<or> last p = ''..'' \<or> node_at f q = Some Directory
          then Inl (IsADirectoryError p)
          else Inr (dict_setitem f q (File c)))"

text \<open>\<^verbatim>\<open>open(p, "rb")\<close> followed by reading the content.\<close>

definition read_file :: "fs \<Rightarrow> path \<Rightarrow> error + content" where
  "read_file f p =
     (case stat f p of
        Inl e \<Rightarrow> Inl e
      | Inr Directory \<Rightarrow> Inl (IsADirectoryError p)
      | Inr (File c) \<Rightarrow> Inr c)"

text \<open>\<^verbatim>\<open>os.path.samefile\<close> as \<^verbatim>\<open>shutil\<close> uses it: two paths that both lead to something, and
  to the same location.\<close>

definition samefile :: "fs \<Rightarrow> path \<Rightarrow> path \<Rightarrow> bool" where
  "samefile f a b =
     (case (stat f a, stat f b) of
        (Inr x, Inr y) \<Rightarrow> lookup f a = lookup f b
      | _ \<Rightarrow> False)"

text \<open>\<^verbatim>\<open>shutil.copy(src, dst)\<close>: a destination that is a directory receives the file under
  the source's base name; the source is opened first, then the destination.\<close>

definition shutil_copy :: "fs \<Rightarrow> path \<Rightarrow> path \<Rightarrow> error + fs \<times> path" where
  "shutil_copy f src dst =
     (let dst' = (if is_dir f dst then dst @ (if src = [] then [] else [last src]) else dst)
      in if samefile f src dst' then Inl (SameFileError src)
         else (case read_file f src of
                 Inl e \<Rightarrow> Inl e
               | Inr c \<Rightarrow>
                   (case write_file f dst' c of
                      Inl e \<Rightarrow> Inl e
                    | Inr f' \<Rightarrow> Inr (f', dst'))))"

section \<open>Effects\<close>

text \<open>
  The world a call runs in: the working directory, the file system, and the chronological
  record of what the call did (log records, file operations and calls of the pipeline's
  callables and of validation). A method of the module is a function from the world to its
  outcome, an exception or a value, and the world it leaves behind.
\<close>

datatype level = INFO | WARNING | ERROR

datatype message =
    BuildingDirectory
  | Statistics pyval
  | FollowingExpectationsFailed "pyval dict"
  | Validating string string

datatype event =
    Logged string level message
  | LoadCalled
  | SaveCalled
  | DirectoryMade path
  | FileCopied path path
  | FileWritten path
  | ValidateCalled string string bool string

record world =
  cwd :: path
  fs :: fs
  events :: "event list"

type_synonym 'a action = "world \<Rightarrow> (error + 'a) \<times> world"

definition return :: "'a \<Rightarrow> 'a action" where
  "return a w = (Inr a, w)"

definition raise :: "error \<Rightarrow> 'a action" where
  "raise e w = (Inl e, w)"

definition and_then :: "'a action \<Rightarrow> ('a \<Rightarrow> 'b action) \<Rightarrow> 'b action" where
  "and_then m k w = (case m w of (Inl e, w') \<Rightarrow> (Inl e, w') | (Inr a, w') \<Rightarrow> k a w')"

definition lift :: "error + 'a \<Rightarrow> 'a action" where
  "lift r w = (r, w)"

definition record_event :: "event \<Rightarrow> unit action" where
  "record_event e w = (Inr (), w\<lparr>events := events w @ [e]\<rparr>)"

definition logger :: "string \<Rightarrow> level \<Rightarrow> message \<Rightarrow> unit action" where
  "logger name lvl msg = record_event (Logged name lvl msg)"

definition getcwd :: "path action" where
  "getcwd w = (Inr (cwd w), w)"

text \<open>\<^verbatim>\<open>Path.mkdir(p, parents=True, exist_ok=True)\<close>\<close>

definition path_mkdir :: "path \<Rightarrow> unit action" where
  "path_mkdir p w =
     (case mkdir_parents_exist_ok (fs w) p of
        Inl e \<Rightarrow> (Inl e, w)
      | Inr f \<Rightarrow> (Inr (), w\<lparr>fs := f, events := events w @ [DirectoryMade p]\<rparr>))"

definition open_write :: "path \<Rightarrow> content \<Rightarrow> unit action" where
  "open_write p c w =
     (case write_file (fs w) p c of
        Inl e \<Rightarrow> (Inl e, w)
      | Inr f \<Rightarrow> (Inr (), w\<lparr>fs := f, events := events w @ [FileWritten p]\<rparr>))"

definition copy_file :: "path \<Rightarrow> path \<Rightarrow> unit action" where
  "copy_file src dst w =
     (case shutil_copy (fs w) src dst of
        Inl e \<Rightarrow> (Inl e, w)
      | Inr (f, dst') \<Rightarrow> (Inr (), w\<lparr>fs := f, events := events w @ [FileCopied src dst']\<rparr>))"

section \<open>Collaborators\<close>

text \<open>
  The module's collaborators are the pipeline framework and the validation library. Their
  code is not part of the module, so what the module asks of them is a parameter of the
  model:

  \<^item> the attribute dictionaries of the datasets of the pipeline's catalog, read through
    \<^verbatim>\<open>load_context\<close>;
  \<^item> the library's project object: the constructor \<^verbatim>\<open>DataContext(dir)\<close>, the class method
    \<^verbatim>\<open>DataContext.create(dir)\<close>, the attribute \<^verbatim>\<open>root_directory\<close>, what emptying the
    dictionary handed out by the attribute \<^verbatim>\<open>datasources\<close> does to the project object,
    \<^verbatim>\<open>add_datasource\<close> with its name and keyword arguments, \<^verbatim>\<open>_save_project_config\<close>, and
    the normalisation of a data asset name into datasource, generator and asset;
  \<^item> the wrapping of data in a \<^verbatim>\<open>PandasDataset\<close> and the validation of such a dataset
    against a suite file.

  The constructor, \<^verbatim>\<open>DataContext.create\<close> and the calls that change the project take the
  file system as it is and give an outcome and the file system they leave: nothing is
  assumed about which files they read or write, nor about what they keep in the project
  object. The module normalises a name with a project object it has just constructed, so
  the normalisation is a function of the project object and the name. Validation reads the
  files. A failure inside a collaborator is a \<open>LibraryError\<close>. The load callable reads the
  file system and the save callable changes it.
\<close>

record NormalizedDataAssetName =
  datasource :: string
  generator :: string
  generator_asset :: string

record ('d, 'p, 'c) library =
  kedro_datasets :: "pyval dict dict"
  DataContext :: "path \<Rightarrow> fs \<Rightarrow> (string + 'c) \<times> fs"
  DataContext_create :: "path \<Rightarrow> fs \<Rightarrow> (string + unit) \<times> fs"
  root_directory :: "'c \<Rightarrow> string"
  datasources_clear :: "'c \<Rightarrow> fs \<Rightarrow> (string + 'c) \<times> fs"
  add_datasource :: "'c \<Rightarrow> string \<Rightarrow> pyval dict \<Rightarrow> fs \<Rightarrow> (string + 'c) \<times> fs"
  save_project_config :: "'c \<Rightarrow> fs \<Rightarrow> (string + unit) \<times> fs"
  normalize_data_asset_name :: "'c \<Rightarrow> string \<Rightarrow> string + NormalizedDataAssetName"
  PandasDataset :: "'d \<Rightarrow> string + 'p"
  validate :: "fs \<Rightarrow> path \<Rightarrow> 'p \<Rightarrow> string \<Rightarrow> string \<Rightarrow> bool \<Rightarrow> string \<Rightarrow> string + validation"

definition library_call :: "string + 'a \<Rightarrow> 'a action" where
  "library_call r w = (case r of Inl msg \<Rightarrow> (Inl (LibraryError msg), w) | Inr a \<Rightarrow> (Inr a, w))"

definition library_effect :: "(fs \<Rightarrow> (string + 'a) \<times> fs) \<Rightarrow> 'a action" where
  "library_effect call w =
     (case call (fs w) of
        (Inl msg, f) \<Rightarrow> (Inl (LibraryError msg), w\<lparr>fs := f\<rparr>)
      | (Inr a, f) \<Rightarrow> (Inr a, w\<lparr>fs := f\<rparr>))"

definition call_load :: "(fs \<Rightarrow> string + 'd) \<Rightarrow> 'd action" where
  "call_load load_callable w =
     library_call (load_callable (fs w)) (w\<lparr>events := events w @ [LoadCalled]\<rparr>)"

definition call_save :: "('d \<Rightarrow> fs \<Rightarrow> string + fs) \<Rightarrow> 'd \<Rightarrow> unit action" where
  "call_save save_callable data w =
     (case save_callable data (fs w) of
        Inl msg \<Rightarrow> (Inl (LibraryError msg), w\<lparr>events := events w @ [SaveCalled]\<rparr>)
      | Inr f \<Rightarrow> (Inr (), w\<lparr>fs := f, events := events w @ [SaveCalled]\<rparr>))"

definition call_validate ::
  "('d, 'p, 'c) library \<Rightarrow> 'p \<Rightarrow> string \<Rightarrow> string \<Rightarrow> bool \<Rightarrow> string \<Rightarrow> validation action" where
  "call_validate lib expectations_data suite rid catch_exceptions result_format w =
     library_call
       (validate lib (fs w) (cwd w) expectations_data suite rid catch_exceptions result_format)
       (w\<lparr>events := events w @ [ValidateCalled suite rid catch_exceptions result_format]\<rparr>)"

text \<open>The property \<^verbatim>\<open>_ge_data_context\<close> of the setup helper and \<^verbatim>\<open>ge_data_context\<close> of the
  transformer: \<^verbatim>\<open>DataContext(Path.cwd() / "great_expectations")\<close>, a new project object at
  every access.\<close>

definition ge_data_context :: "('d, 'p, 'c) library \<Rightarrow> 'c action" where
  "ge_data_context lib w =
     library_effect (DataContext lib (joinpath (cwd w) ''great_expectations'')) w"

section \<open>Setup helper\<close>

text \<open>
  \<^verbatim>\<open>
  def create_ge_project(self) -> None:
      if Path.is_file(Path.cwd() / "great_expectations" / "great_expectations.yml"):
          pass
      else:
          self._logger.info("Building great_expectations directory...")
          DataContext.create(Path.cwd())
  \<close>
\<close>

definition create_ge_project :: "('d, 'p, 'c) library \<Rightarrow> unit action" where
  "create_ge_project lib w =
     (if is_file (fs w)
           (joinpath (joinpath (cwd w) ''great_expectations'') ''great_expectations.yml'')
      then return () w
      else and_then (logger ''ExpectationsSetup'' INFO BuildingDirectory) (\<lambda>_.
             library_effect (DataContext_create lib (cwd w))) w)"

definition subdir_reader_generator :: "string \<Rightarrow> pyval" where
  "subdir_reader_generator base_directory =
     PDict [(''class_name'', PStr ''SubdirReaderGenerator''),
            (''base_directory'', PStr base_directory),
            (''reader_options'', PDict [(''sep'', PNone), (''engine'', PStr ''python'')])]"

text \<open>
  \<^verbatim>\<open>
  generators = {
      str(child.parts[-1]): {..., "base_directory": str(Path("data") / child.parts[-1]), ...}
      for child in top_directory.iterdir()
      if child.is_dir() == True
  }
  \<close>
\<close>

fun generators_comprehension :: "fs \<Rightarrow> path list \<Rightarrow> pyval dict \<Rightarrow> pyval dict" where
  "generators_comprehension f [] generators = generators"
| "generators_comprehension f (child # children) generators =
     (if is_dir f child
      then generators_comprehension f children
             (dict_setitem generators (last child)
                (subdir_reader_generator (path_str (''data/'' @ last child))))
      else generators_comprehension f children generators)"

text \<open>
  \<^verbatim>\<open>create_generators\<close> assigns \<^verbatim>\<open>generators\<close> under two separate conditions on the number
  of subdirectories and returns it.
\<close>

definition create_generators :: "pyval dict action" where
  "create_generators w =
     (let top_directory = joinpath (cwd w) ''data'' in
      case iterdir (fs w) top_directory of
        Inl e \<Rightarrow> (Inl e, w)
      | Inr children \<Rightarrow>
          let n_directories = filter (is_dir (fs w)) children;
              generators0 =
                (if length n_directories = 0
                 then Some [(''data'', subdir_reader_generator ''data'')]
                 else None)
          in if length n_directories > 0
             then (case iterdir (fs w) top_directory of
                     Inl e \<Rightarrow> (Inl e, w)
                   | Inr children' \<Rightarrow> (Inr (generators_comprehension (fs w) children' []), w))
             else (case generators0 of
                     None \<Rightarrow> (Inl (UnboundLocalError ''generators''), w)
                   | Some generators \<Rightarrow> (Inr generators, w)))"

text \<open>
  \<^verbatim>\<open>
  def setup_datasources(self) -> None:
      context = self._ge_data_context
      generators = self.create_generators()
      context.datasources.clear()
      context.add_datasource(name="data", class_name="PandasDatasource",
          data_asset_type={"class_name": "PandasDataset"}, generators=generators)
      context._save_project_config()
  \<close>
  The project object is mutable; the model passes it on from one call of the library to
  the next.
\<close>

definition data_keywords :: "pyval dict \<Rightarrow> pyval dict" where
  "data_keywords generators =
     [(''class_name'', PStr ''PandasDatasource''),
      (''data_asset_type'', PDict [(''class_name'', PStr ''PandasDataset'')]),
      (''generators'', PDict generators)]"

definition setup_datasources :: "('d, 'p, 'c) library \<Rightarrow> unit action" where
  "setup_datasources lib =
     and_then (ge_data_context lib) (\<lambda>context.
     and_then create_generators (\<lambda>generators.
     and_then (library_effect (datasources_clear lib context)) (\<lambda>context.
     and_then (library_effect
                 (add_datasource lib context ''data'' (data_keywords generators))) (\<lambda>context.
       library_effect (save_project_config lib context)))))"

definition ExpectationsSetup_init :: "('d, 'p, 'c) library \<Rightarrow> unit action" where
  "ExpectationsSetup_init lib = and_then (create_ge_project lib) (\<lambda>_. setup_datasources lib)"

section \<open>Transformer\<close>

record ExpectationsEvaluator =
  expectations_suite :: string
  run_id :: string
  kedro_dataset_name :: string
  break_on_failure :: bool

text \<open>
  \<^verbatim>\<open>
  path = self.kedro_data_context.catalog.datasets.__dict__[
      self.kedro_dataset_name].__dict__["_filepath"]
  \<close>
\<close>

definition kedro_dataset_path ::
  "ExpectationsEvaluator \<Rightarrow> ('d, 'p, 'c) library \<Rightarrow> pyval action" where
  "kedro_dataset_path self lib =
     and_then (lift (dict_getitem (kedro_datasets lib) (kedro_dataset_name self))) (\<lambda>dataset.
       lift (dict_getitem dataset ''_filepath''))"

text \<open>
  \<^verbatim>\<open>
  if not self.break_on_failure and not validation["success"]:
      self.logger.warning("{}".format(validation["statistics"]))
  if validation["success"]:
      self.logger.info("{}".format(validation["statistics"]))
  if self.break_on_failure and not validation["success"]:
      failed_validations = {
          validation_result["expectation_config"]["expectation_type"]:
              validation_result["expectation_config"]["kwargs"]["column"]
          for validation_result in validation["results"]
          if not validation_result["success"]
      }
      self.logger.error("Following expectations failed: {}".format(failed_validations))
      raise FailedValidationException
  \<close>
  The exception is raised as the bare class: its arguments are empty.
\<close>

fun failed_validations_comprehension ::
  "validation_result list \<Rightarrow> pyval dict \<Rightarrow> error + pyval dict" where
  "failed_validations_comprehension [] failed_validations = Inr failed_validations"
| "failed_validations_comprehension (validation_result # rest) failed_validations =
     (if \<not> result_success validation_result
      then (case dict_getitem (kwargs (expectation_config validation_result)) ''column'' of
              Inl e \<Rightarrow> Inl e
            | Inr column \<Rightarrow>
                failed_validations_comprehension rest
                  (dict_setitem failed_validations
                     (expectation_type (expectation_config validation_result)) column))
      else failed_validations_comprehension rest failed_validations)"

definition raise_on_failure :: "ExpectationsEvaluator \<Rightarrow> validation \<Rightarrow> unit action" where
  "raise_on_failure self validation =
     and_then
       (if \<not> break_on_failure self \<and> \<not> success validation
        then logger ''ExpectationsEvaluator'' WARNING (Statistics (statistics validation))
        else return ()) (\<lambda>_.
     and_then
       (if success validation
        then logger ''ExpectationsEvaluator'' INFO (Statistics (statistics validation))
        else return ()) (\<lambda>_.
       if break_on_failure self \<and> \<not> success validation
       then and_then (lift (failed_validations_comprehension (results validation) []))
              (\<lambda>failed_validations.
            and_then (logger ''ExpectationsEvaluator'' ERROR
                        (FollowingExpectationsFailed failed_validations)) (\<lambda>_.
              raise (FailedValidationException [])))
       else return ()))"

text \<open>
  \<^verbatim>\<open>
  def normalize_data_asset(self, ge_data_asset: Path) -> NormalizedDataAssetName:
      context = self.ge_data_context
      potential_path = Path(ge_data_asset)
      normalized = context.normalize_data_asset_name(str(potential_path))
      return normalized
  \<close>
\<close>

definition normalize_data_asset ::
  "('d, 'p, 'c) library \<Rightarrow> pyval \<Rightarrow> NormalizedDataAssetName action" where
  "normalize_data_asset lib ge_data_asset =
     and_then (ge_data_context lib) (\<lambda>context.
       case ge_data_asset of
         PStr potential_path \<Rightarrow>
           library_call (normalize_data_asset_name lib context (path_str potential_path))
       | _ \<Rightarrow> raise TypeError)"

text \<open>
  \<^verbatim>\<open>
  def copy_expectations_to_great_expectations(self, path_to_expectations: str) -> None:
      normalized_data_asset = self.normalize_data_asset(self.kedro_dataset_path)
      root_directory = self.ge_data_context.root_directory
      path_to_expectations = Path(self.expectations_suite)
      expectations_suite_filename = path_to_expectations.parts[-1]
      expectations_copy_path = (Path(root_directory) / "expectations"
          / normalized_data_asset.datasource / normalized_data_asset.generator
          / normalized_data_asset.generator_asset)
      Path.mkdir(expectations_copy_path, exist_ok=True, parents=True)
      shutil.copy(str(path_to_expectations),
          str(expectations_copy_path / expectations_suite_filename))
  \<close>
  The parameter is overwritten by the transformer's own suite path before it is read. The
  operating system takes a relative path from the working directory.
\<close>

definition copy_expectations_to_great_expectations ::
  "ExpectationsEvaluator \<Rightarrow> ('d, 'p, 'c) library \<Rightarrow> string \<Rightarrow> unit action" where
  "copy_expectations_to_great_expectations self lib path_to_expectations =
     and_then (kedro_dataset_path self lib) (\<lambda>dataset_path.
     and_then (normalize_data_asset lib dataset_path) (\<lambda>normalized_data_asset.
     and_then (ge_data_context lib) (\<lambda>context.
     and_then (lift (last_part (expectations_suite self))) (\<lambda>expectations_suite_filename.
     and_then getcwd (\<lambda>here.
       let expectations_copy_path =
             joinpath (joinpath (joinpath (joinpath (joinpath here (root_directory lib context))
               ''expectations'')
               (datasource normalized_data_asset))
               (generator normalized_data_asset))
               (generator_asset normalized_data_asset)
       in and_then (path_mkdir expectations_copy_path) (\<lambda>_.
            copy_file (joinpath here (path_str (expectations_suite self)))
              (joinpath expectations_copy_path expectations_suite_filename)))))))"

text \<open>
  \<^verbatim>\<open>
  def save_validations(self, validation: dict) -> None:
      root_directory = self.ge_data_context.root_directory
      data_set_path = self.kedro_dataset_path
      normalized_data_asset = self.normalize_data_asset(data_set_path)
      expectations_suite_name = validation["meta"]["expectation_suite_name"]
      validations_file_name = expectations_suite_name + ".json"
      validations_location = (Path(root_directory) / "uncommitted" / "validations"
          / self.run_id / normalized_data_asset.datasource
          / normalized_data_asset.generator / normalized_data_asset.generator_asset)
      Path.mkdir(validations_location, parents=True, exist_ok=True)
      with open(validations_location / validations_file_name, "w") as file:
          simplejson.dump(validation, file)
  \<close>
\<close>

definition save_validations ::
  "ExpectationsEvaluator \<Rightarrow> ('d, 'p, 'c) library \<Rightarrow> validation \<Rightarrow> unit action" where
  "save_validations self lib validation =
     and_then (ge_data_context lib) (\<lambda>context.
     and_then (kedro_dataset_path self lib) (\<lambda>data_set_path.
     and_then (normalize_data_asset lib data_set_path) (\<lambda>normalized_data_asset.
     and_then (lift (dict_getitem (meta validation) ''expectation_suite_name''))
       (\<lambda>expectations_suite_name.
     and_then (case expectations_suite_name of
                 PStr name \<Rightarrow> return (name @ ''.json'')
               | _ \<Rightarrow> raise TypeError) (\<lambda>validations_file_name.
     and_then getcwd (\<lambda>here.
       let validations_location =
             joinpath (joinpath (joinpath (joinpath (joinpath (joinpath
               (joinpath here (root_directory lib context))
               ''uncommitted'')
               ''validations'')
               (run_id self))
               (datasource normalized_data_asset))
               (generator normalized_data_asset))
               (generator_asset normalized_data_asset)
       in and_then (path_mkdir validations_location) (\<lambda>_.
            open_write (joinpath validations_location validations_file_name)
              (ValidationJson validation))))))))"

text \<open>
  \<^verbatim>\<open>
  def load(self, data_set_name, load):
      data = load()
      expectations_data = PandasDataset(data)
      self.copy_expectations_to_great_expectations(self.expectations_suite)
      self.logger.info("validating: {} against {} ".format(
          self.kedro_dataset_name, Path(self.expectations_suite).parts[-1]))
      validation = expectations_data.validate(expectation_suite=self.expectations_suite,
          run_id=self.run_id, catch_exceptions=True, result_format="COMPLETE")
      self.save_validations(validation)
      self.raise_on_failure(validation)
      return data
  \<close>
\<close>

definition log_validating :: "ExpectationsEvaluator \<Rightarrow> unit action" where
  "log_validating self =
     and_then (lift (last_part (expectations_suite self))) (\<lambda>filename.
       logger ''ExpectationsEvaluator'' INFO (Validating (kedro_dataset_name self) filename))"

definition load ::
  "ExpectationsEvaluator \<Rightarrow> ('d, 'p, 'c) library \<Rightarrow> string \<Rightarrow> (fs \<Rightarrow> string + 'd)
     \<Rightarrow> 'd action" where
  "load self lib data_set_name load_callable =
     and_then (call_load load_callable) (\<lambda>data.
     and_then (library_call (PandasDataset lib data)) (\<lambda>expectations_data.
     and_then (copy_expectations_to_great_expectations self lib (expectations_suite self)) (\<lambda>_.
     and_then (log_validating self) (\<lambda>_.
     and_then (call_validate lib expectations_data (expectations_suite self) (run_id self)
                 True ''COMPLETE'') (\<lambda>validation.
     and_then (save_validations self lib validation) (\<lambda>_.
     and_then (raise_on_failure self validation) (\<lambda>_.
       return data)))))))"

text \<open>
  \<^verbatim>\<open>
  def save(self, data_set_name, save, data):
      save(data)
      self.copy_expectations_to_great_expectations(self.expectations_suite)
      expectations_data = PandasDataset(data)
      self.logger.info(...)
      validation = expectations_data.validate(...)
      self.save_validations(validation)
      self.raise_on_failure(validation)
  \<close>
\<close>

definition save ::
  "ExpectationsEvaluator \<Rightarrow> ('d, 'p, 'c) library \<Rightarrow> string \<Rightarrow> ('d \<Rightarrow> fs \<Rightarrow> string + fs) \<Rightarrow> 'd
     \<Rightarrow> unit action" where
  "save self lib data_set_name save_callable data =
     and_then (call_save save_callable data) (\<lambda>_.
     and_then (copy_expectations_to_great_expectations self lib (expectations_suite self)) (\<lambda>_.
     and_then (library_call (PandasDataset lib data)) (\<lambda>expectations_data.
     and_then (log_validating self) (\<lambda>_.
     and_then (call_validate lib expectations_data (expectations_suite self) (run_id self)
                 True ''COMPLETE'') (\<lambda>validation.
     and_then (save_validations self lib validation) (\<lambda>_.
       raise_on_failure self validation))))))"

section \<open>Reference notions for the properties\<close>

text \<open>The suite a catalog configuration records for a dataset name, if any.\<close>

definition suite_of :: "catalog \<Rightarrow> string \<Rightarrow> pyval option" where
  "suite_of catalog name =
     (case map_of catalog name of
        None \<Rightarrow> None
      | Some entry \<Rightarrow> map_of entry ''expectations_suite'')"

definition insert_suite :: "catalog \<Rightarrow> string \<Rightarrow> pyval dict \<Rightarrow> pyval dict" where
  "insert_suite catalog name suites =
     (case suite_of catalog name of
        None \<Rightarrow> suites
      | Some suite \<Rightarrow> dict_setitem suites name suite)"

text \<open>An entry without its suite key, everything else in place.\<close>

definition strip_entry :: "pyval dict \<Rightarrow> pyval dict" where
  "strip_entry entry = filter (\<lambda>(key, val). key \<noteq> ''expectations_suite'') entry"

text \<open>A catalog configuration is a dictionary of dictionaries: keys are distinct at both
  levels.\<close>

definition wf_catalog :: "catalog \<Rightarrow> bool" where
  "wf_catalog catalog = (wf_dict catalog \<and> list_all (\<lambda>(name, entry). wf_dict entry) catalog)"

definition example_catalog :: catalog where
  "example_catalog =
     [(''cars'', [(''type'', PStr ''CSVLocalDataSet''),
                  (''filepath'', PStr ''data/01_raw/cars.csv''),
                  (''expectations_suite'', PStr ''suites/cars.json'')]),
      (''boats'', [(''type'', PStr ''CSVLocalDataSet''),
                   (''filepath'', PStr ''data/01_raw/boats.csv'')])]"

text \<open>A failed outcome whose expectation has no \<^verbatim>\<open>column\<close> keyword argument.\<close>

definition missing_column :: "validation_result \<Rightarrow> bool" where
  "missing_column validation_result =
     (\<not> result_success validation_result \<and>
      ''column'' \<notin> set (dict_keys (kwargs (expectation_config validation_result))))"

text \<open>The failed outcomes in order, each as its expectation type with its column.\<close>

fun failed_columns :: "validation_result list \<Rightarrow> (string \<times> pyval) list" where
  "failed_columns [] = []"
| "failed_columns (validation_result # rest) =
     (if \<not> result_success validation_result
      then (case map_of (kwargs (expectation_config validation_result)) ''column'' of
              None \<Rightarrow> []
            | Some column \<Rightarrow>
                [(expectation_type (expectation_config validation_result), column)])
      else []) @ failed_columns rest"

fun insert_failed :: "string \<times> pyval \<Rightarrow> pyval dict \<Rightarrow> pyval dict" where
  "insert_failed (expectation, column) failed = dict_setitem failed expectation column"

text \<open>A value occurs in another: it is that value, or occurs in one of its elements, keys
  or values.\<close>

fun occurs_in :: "pyval \<Rightarrow> pyval \<Rightarrow> bool" where
  "occurs_in x (PList vs) = (x = PList vs \<or> (\<exists>v \<in> set vs. occurs_in x v))"
| "occurs_in x (PDict kvs) =
     (x = PDict kvs \<or> (\<exists>kv \<in> set kvs. x = PStr (fst kv) \<or> occurs_in x (snd kv)))"
| "occurs_in x v = (x = v)"

text \<open>An exception lists the failures when every failed expectation type and its column
  occur in the exception's arguments.\<close>

definition exception_lists_failures :: "error \<Rightarrow> (string \<times> pyval) list \<Rightarrow> bool" where
  "exception_lists_failures e failed =
     (case e of
        FailedValidationException args \<Rightarrow>
          list_all (\<lambda>(expectation, column).
                      occurs_in (PStr expectation) (PList args) \<and>
                      occurs_in column (PList args)) failed
      | _ \<Rightarrow> False)"

definition example_world :: world where
  "example_world =
     \<lparr>cwd = [''home'', ''project''],
      fs = [([''home''], Directory),
            ([''home'', ''project''], Directory),
            ([''home'', ''project'', ''data''], Directory),
            ([''home'', ''project'', ''data'', ''01_raw''], Directory),
            ([''home'', ''project'', ''data'', ''01_raw'', ''cars.csv''], File (Text ''rows'')),
            ([''home'', ''project'', ''suites''], Directory),
            ([''home'', ''project'', ''suites'', ''cars.json''], File (Text ''suite'')),
            ([''home'', ''project'', ''great_expectations''], Directory),
            ([''home'', ''project'', ''great_expectations'', ''great_expectations.yml''],
               File (ProjectConfig [(''warehouse'', PDict [(''class_name'', PStr ''PandasDatasource'')])]))],
      events = []\<rparr>"

definition strict_evaluator :: ExpectationsEvaluator where
  "strict_evaluator =
     \<lparr>expectations_suite = ''suites/cars.json'', run_id = ''run1'',
      kedro_dataset_name = ''cars'', break_on_failure = True\<rparr>"

definition lenient_evaluator :: ExpectationsEvaluator where
  "lenient_evaluator = strict_evaluator\<lparr>break_on_failure := False\<rparr>"

definition null_price :: validation_result where
  "null_price =
     \<lparr>result_success = False,
      expectation_config =
        \<lparr>expectation_type = ''expect_column_values_to_not_be_null'',
         kwargs = [(''column'', PStr ''price'')]\<rparr>\<rparr>"

definition row_count :: validation_result where
  "row_count =
     \<lparr>result_success = False,
      expectation_config =
        \<lparr>expectation_type = ''expect_table_row_count_to_be_between'',
         kwargs = [(''min_value'', PInt 1), (''max_value'', PInt 100)]\<rparr>\<rparr>"

definition example_statistics :: pyval where
  "example_statistics =
     PDict [(''evaluated_expectations'', PInt 1), (''successful_expectations'', PInt 0),
            (''unsuccessful_expectations'', PInt 1)]"

text \<open>A failing result whose only failure is on a column, and one whose only failure is
  a table-level expectation.\<close>

definition column_failure :: validation where
  "column_failure =
     \<lparr>success = False, statistics = example_statistics, results = [null_price],
      meta = [(''expectation_suite_name'', PStr ''default''), (''run_id'', PStr ''run1'')]\<rparr>"

definition table_failure :: validation where
  "table_failure = column_failure\<lparr>results := [row_count]\<rparr>"

text \<open>
  The location a path leads to when every directory on its way is there, and the
  locations it passes on the way, the last of them being the one it leads to. For a path
  without \<^verbatim>\<open>..\<close> these are the path itself and its prefixes.
\<close>

definition location :: "path \<Rightarrow> path" where
  "location p = foldl descend [] p"

fun visited_from :: "path \<Rightarrow> string list \<Rightarrow> path list" where
  "visited_from cur [] = []"
| "visited_from cur (c # cs) = descend cur c # visited_from (descend cur c) cs"

definition visited :: "path \<Rightarrow> path list" where
  "visited p = visited_from [] p"


text \<open>A plain name: a single path component.\<close>

definition plain_name :: "string \<Rightarrow> bool" where
  "plain_name s = (CHR ''/'' \<notin> set s \<and> s \<noteq> [] \<and> s \<noteq> ''.'')"


definition ge_config_file :: "world \<Rightarrow> path" where
  "ge_config_file w =
     joinpath (joinpath (cwd w) ''great_expectations'') ''great_expectations.yml''"







text \<open>
  A pipeline and a validation library for the examples. The pipeline has one dataset
  \<^verbatim>\<open>cars\<close> stored at \<^verbatim>\<open>data/01_raw/cars.csv\<close>. The library's project object holds the
  configured datasources, read from the project's configuration file, next to the
  dictionary of instantiated datasources that its attribute \<^verbatim>\<open>datasources\<close> hands out;
  emptying that dictionary leaves the configured ones, \<^verbatim>\<open>add_datasource\<close> enters the
  keyword arguments under the name in both, and \<^verbatim>\<open>_save_project_config\<close> writes the
  configured ones to the configuration file. The dataset's path is normalized to
  datasource \<^verbatim>\<open>data\<close>, generator \<^verbatim>\<open>01_raw\<close> and asset \<^verbatim>\<open>cars\<close>; validation needs the suite
  file and finds the null prices.
\<close>

record project =
  project_root :: path
  configured :: "pyval dict"
  instantiated :: "pyval dict"

definition example_library :: "(string, string, project) library" where
  "example_library =
     \<lparr>kedro_datasets = [(''cars'', [(''_filepath'', PStr ''data/01_raw/cars.csv'')])],
      DataContext =
        (\<lambda>dir f.
           case read_file f (dir @ [''great_expectations.yml'']) of
             Inr (ProjectConfig ds) \<Rightarrow>
               (Inr \<lparr>project_root = dir, configured = ds, instantiated = ds\<rparr>, f)
           | _ \<Rightarrow> (Inl ''ConfigNotFoundError'', f)),
      DataContext_create =
        (\<lambda>dir f.
           case mkdir_parents_exist_ok f (dir @ [''great_expectations'']) of
             Inl e \<Rightarrow> (Inl ''OSError'', f)
           | Inr f1 \<Rightarrow>
               (case write_file f1 (dir @ [''great_expectations'', ''great_expectations.yml''])
                       (ProjectConfig []) of
                  Inl e \<Rightarrow> (Inl ''OSError'', f1)
                | Inr f2 \<Rightarrow> (Inr (), f2))),
      root_directory = (\<lambda>ctxt. ''/'' @ join_slash (project_root ctxt)),
      datasources_clear = (\<lambda>ctxt f. (Inr (ctxt\<lparr>instantiated := []\<rparr>), f)),
      add_datasource =
        (\<lambda>ctxt name keywords f.
           (Inr (ctxt\<lparr>configured := dict_setitem (configured ctxt) name (PDict keywords),
                      instantiated := dict_setitem (instantiated ctxt) name (PDict keywords)\<rparr>),
            f)),
      save_project_config =
        (\<lambda>ctxt f.
           case write_file f (project_root ctxt @ [''great_expectations.yml''])
                  (ProjectConfig (configured ctxt)) of
             Inl e \<Rightarrow> (Inl ''OSError'', f)
           | Inr f' \<Rightarrow> (Inr (), f')),
      normalize_data_asset_name =
        (\<lambda>ctxt name.
           if name = ''data/01_raw/cars.csv''
           then Inr \<lparr>datasource = ''data'', generator = ''01_raw'', generator_asset = ''cars''\<rparr>
           else Inl ''DataContextError''),
      PandasDataset = (\<lambda>data. Inr data),
      validate =
        (\<lambda>f here dataset suite rid catch_exceptions result_format.
           if is_file f (joinpath here suite) then Inr column_failure
           else Inl ''FileNotFoundError'')\<rparr>"

text \<open>The names of the datasources in a project's configuration file.\<close>

definition datasource_names :: "fs \<Rightarrow> path \<Rightarrow> error + string list" where
  "datasource_names f p =
     (case read_file f p of
        Inl e \<Rightarrow> Inl e
      | Inr (ProjectConfig ds) \<Rightarrow> Inr (dict_keys ds)
      | Inr other \<Rightarrow> Inl (LibraryError ''InvalidConfigError''))"

text \<open>The pipeline's callables for the dataset \<^verbatim>\<open>cars\<close>: loading reads the file, saving
  writes it.\<close>

definition cars_file :: path where
  "cars_file = [''home'', ''project'', ''data'', ''01_raw'', ''cars.csv'']"

definition load_cars :: "fs \<Rightarrow> string + string" where
  "load_cars f =
     (case read_file f cars_file of Inr (Text rows) \<Rightarrow> Inr rows | _ \<Rightarrow> Inl ''IOError'')"

definition save_cars :: "string \<Rightarrow> fs \<Rightarrow> string + fs" where
  "save_cars rows f =
     (case write_file f cars_file (Text rows) of Inl e \<Rightarrow> Inl ''IOError'' | Inr f' \<Rightarrow> Inr f')"



definition cars_suite_file :: path where
  "cars_suite_file = [''home'', ''project'', ''suites'', ''cars.json'']"

definition cars_result_file :: path where
  "cars_result_file =
     [''home'', ''project'', ''great_expectations'', ''uncommitted'', ''validations'', ''run1'',
      ''data'', ''01_raw'', ''cars'', ''default.json'']"

definition cars_suite_copy :: path where
  "cars_suite_copy =
     [''home'', ''project'', ''great_expectations'', ''expectations'',
      ''data'', ''01_raw'', ''cars'', ''cars.json'']"



text \<open>The kind of step an event records, and the order in which the transformer is stated
  to take its steps: the underlying callable, the copy of the suite (directory, then
  file), the log line, validation, the result file (directory, then file), the failure
  policy's log record.\<close>

datatype step = CallableStep | MkdirStep | CopyStep | LogStep | ValidateStep | WriteStep

fun step_of :: "event \<Rightarrow> step" where
  "step_of LoadCalled = CallableStep"
| "step_of SaveCalled = CallableStep"
| "step_of (DirectoryMade p) = MkdirStep"
| "step_of (FileCopied src dst) = CopyStep"
| "step_of (Logged name lvl msg) = LogStep"
| "step_of (ValidateCalled suite rid catch_exceptions result_format) = ValidateStep"
| "step_of (FileWritten p) = WriteStep"

definition transformer_order :: "step list" where
  "transformer_order =
     [CallableStep, MkdirStep, CopyStep, LogStep, ValidateStep, MkdirStep, WriteStep, LogStep]"

text \<open>An outcome that is not the strict-mode exception; and a call that ran to its end: it
  returned, or it raised the strict-mode exception.\<close>

definition no_fve :: "error + 'a \<Rightarrow> bool" where
  "no_fve r = (case r of Inl (FailedValidationException args) \<Rightarrow> False | _ \<Rightarrow> True)"

definition completed :: "error + 'a \<Rightarrow> bool" where
  "completed r =
     (case r of Inr a \<Rightarrow> True | Inl (FailedValidationException args) \<Rightarrow> True | Inl e \<Rightarrow> False)"

text \<open>An action emits a sequence of steps: whatever its outcome, it is not the
  strict-mode exception, the events it adds are a prefix of the sequence, and all of it
  when the action returns. An action finishes with a sequence of steps likewise, where
  the strict-mode exception counts as running to the end.\<close>

definition emits :: "'a action \<Rightarrow> step list \<Rightarrow> bool" where
  "emits m steps =
     (\<forall>w. no_fve (fst (m w)) \<and>
          (\<exists>new. events (snd (m w)) = events w @ new \<and>
                 prefix (map step_of new) steps \<and>
                 (\<not> isl (fst (m w)) \<longrightarrow> map step_of new = steps)))"

definition finishes :: "'a action \<Rightarrow> step list \<Rightarrow> bool" where
  "finishes m steps =
     (\<forall>w. \<exists>new. events (snd (m w)) = events w @ new \<and>
                 prefix (map step_of new) steps \<and>
                 (completed (fst (m w)) \<longrightarrow> map step_of new = steps))"

section \<open>Dictionaries\<close>

lemma map_of_dict_setitem: "map_of (dict_setitem d k v) = (map_of d)(k \<mapsto> v)"
  by (induction d k v rule: dict_setitem.induct) (auto simp: fun_eq_iff)

lemma keys_dict_setitem: "fst ` set (dict_setitem d k v) = insert k (fst ` set d)"
  by (induction d k v rule: dict_setitem.induct) auto

lemma dict_setitem_fresh: "k \<notin> fst ` set d \<Longrightarrow> dict_setitem d k v = d @ [(k, v)]"
  by (induction d k v rule: dict_setitem.induct) auto

lemma distinct_dict_setitem:
  "distinct (map fst d) \<Longrightarrow> distinct (map fst (dict_setitem d k v))"
proof (induction d k v rule: dict_setitem.induct)
  case (1 k v)
  then show ?case by simp
next
  case (2 k' v' d k v)
  show ?case
  proof (cases "k' = k")
    case True
    with 2 show ?thesis by simp
  next
    case False
    with 2 have "distinct (map fst (dict_setitem d k v))" by simp
    moreover have "k' \<notin> fst ` set (dict_setitem d k v)"
      using 2 False by (simp add: keys_dict_setitem)
    ultimately show ?thesis using False by simp
  qed
qed

lemma wf_dict_setitem: "wf_dict d \<Longrightarrow> wf_dict (dict_setitem d k v)"
  unfolding wf_dict_def by (rule distinct_dict_setitem)

lemma dict_getitem_Inr_iff: "dict_getitem d k = Inr v \<longleftrightarrow> map_of d k = Some v"
  by (simp add: dict_getitem_def split: option.splits)

lemma dict_getitem_key:
  assumes "k \<in> set (dict_keys d)"
  shows "\<exists>v. dict_getitem d k = Inr v"
proof -
  from assms have "map_of d k \<noteq> None"
    by (simp add: dict_keys_def map_of_eq_None_iff)
  then show ?thesis by (auto simp: dict_getitem_def)
qed

lemma dict_getitem_key_iff: "k \<in> set (dict_keys d) \<longleftrightarrow> (\<exists>v. dict_getitem d k = Inr v)"
proof
  assume "k \<in> set (dict_keys d)"
  then show "\<exists>v. dict_getitem d k = Inr v" by (rule dict_getitem_key)
next
  assume "\<exists>v. dict_getitem d k = Inr v"
  then obtain v where "map_of d k = Some v" by (auto simp: dict_getitem_Inr_iff)
  then have "(k, v) \<in> set d" by (rule map_of_SomeD)
  then show "k \<in> set (dict_keys d)" by (force simp: dict_keys_def)
qed

lemma map_of_map_values:
  "map_of (map (\<lambda>(k, v). (k, g v)) d) k = map_option g (map_of d k)"
  by (induction d) auto

section \<open>Config scanners: the suites of a catalog\<close>

lemma suites_comprehension_fold:
  "set datasets \<subseteq> set (dict_keys catalog) \<Longrightarrow>
   suites_comprehension catalog datasets acc = Inr (fold (insert_suite catalog) datasets acc)"
proof (induction datasets arbitrary: acc)
  case Nil
  show ?case by simp
next
  case (Cons name datasets)
  from Cons.prems obtain entry where e: "dict_getitem catalog name = Inr entry"
    using dict_getitem_key[of name catalog] by auto
  then have m: "map_of catalog name = Some entry" by (simp add: dict_getitem_Inr_iff)
  from Cons.prems have sub: "set datasets \<subseteq> set (dict_keys catalog)" by simp
  note IH = Cons.IH[OF sub]
  show ?case
  proof (cases "map_of entry ''expectations_suite''")
    case None
    then have "''expectations_suite'' \<notin> set (dict_keys entry)"
      by (simp add: dict_keys_def map_of_eq_None_iff)
    then show ?thesis
      using e IH[of acc] by (simp add: insert_suite_def suite_of_def m None)
  next
    case (Some suite)
    then have "''expectations_suite'' \<in> set (dict_keys entry)"
      using map_of_eq_None_iff[of entry "''expectations_suite''"] by (simp add: dict_keys_def)
    moreover have "dict_getitem entry ''expectations_suite'' = Inr suite"
      using Some by (simp add: dict_getitem_Inr_iff)
    ultimately show ?thesis
      using e IH[of "dict_setitem acc name suite"]
      by (simp add: insert_suite_def suite_of_def m Some)
  qed
qed

lemma map_of_insert_suite:
  "map_of (insert_suite catalog name suites) n =
     (if n = name \<and> suite_of catalog name \<noteq> None then suite_of catalog name else map_of suites n)"
  by (cases "suite_of catalog name") (simp_all add: insert_suite_def map_of_dict_setitem)

lemma map_of_fold_insert_suite:
  "map_of (fold (insert_suite catalog) datasets acc) n =
     (if n \<in> set datasets \<and> suite_of catalog n \<noteq> None then suite_of catalog n else map_of acc n)"
proof (induction datasets arbitrary: acc)
  case Nil
  show ?case by simp
next
  case (Cons name datasets)
  show ?case
    by (simp only: fold_simps Cons.IH map_of_insert_suite) auto
qed

lemma wf_dict_fold_insert_suite:
  "wf_dict acc \<Longrightarrow> wf_dict (fold (insert_suite catalog) datasets acc)"
proof (induction datasets arbitrary: acc)
  case Nil
  then show ?case by simp
next
  case (Cons name datasets)
  have "wf_dict (insert_suite catalog name acc)"
    using Cons.prems by (cases "suite_of catalog name") (simp_all add: insert_suite_def wf_dict_setitem)
  then show ?case using Cons.IH by simp
qed

lemma suite_of_Some_iff:
  "suite_of catalog name = Some suite \<longleftrightarrow>
     (\<exists>entry. dict_getitem catalog name = Inr entry \<and>
              dict_getitem entry ''expectations_suite'' = Inr suite)"
  by (auto simp: suite_of_def dict_getitem_Inr_iff split: option.splits)

text \<open>
  Claim C2. For every catalog configuration, \<open>get_names_and_expectations_suite\<close> returns a
  dictionary (it never raises) whose keys are exactly the dataset names whose entry
  contains the key \<^verbatim>\<open>expectations_suite\<close>, each mapped to that entry's value under that key.
\<close>

theorem get_names_and_expectations_suite_exact:
  "\<exists>suites. get_names_and_expectations_suite project_context = Inr suites \<and>
     wf_dict suites \<and>
     set (dict_keys suites) =
       {name \<in> set (dict_keys (config_loader_get_catalog project_context)).
          \<exists>entry. dict_getitem (config_loader_get_catalog project_context) name = Inr entry \<and>
                  ''expectations_suite'' \<in> set (dict_keys entry)} \<and>
     (\<forall>name entry.
        dict_getitem (config_loader_get_catalog project_context) name = Inr entry \<and>
        ''expectations_suite'' \<in> set (dict_keys entry) \<longrightarrow>
        dict_getitem suites name = dict_getitem entry ''expectations_suite'')"
proof -
  let ?catalog = "config_loader_get_catalog project_context"
  let ?suites = "fold (insert_suite ?catalog) (dict_keys ?catalog) []"
  have run: "get_names_and_expectations_suite project_context = Inr ?suites"
    by (simp add: get_names_and_expectations_suite_def Let_def suites_comprehension_fold)
  have wf: "wf_dict ?suites"
    by (rule wf_dict_fold_insert_suite) (simp add: wf_dict_def)
  have look: "map_of ?suites name = suite_of ?catalog name" for name
  proof (cases "name \<in> set (dict_keys ?catalog)")
    case True
    then show ?thesis by (simp add: map_of_fold_insert_suite)
  next
    case False
    then have "map_of ?catalog name = None"
      by (simp add: dict_keys_def map_of_eq_None_iff)
    then show ?thesis by (simp add: map_of_fold_insert_suite suite_of_def)
  qed
  have get: "dict_getitem ?suites name = Inr suite \<longleftrightarrow> suite_of ?catalog name = Some suite"
    for name suite
    by (simp add: dict_getitem_Inr_iff look)
  have keys: "set (dict_keys ?suites) =
       {name \<in> set (dict_keys ?catalog).
          \<exists>entry. dict_getitem ?catalog name = Inr entry \<and>
                  ''expectations_suite'' \<in> set (dict_keys entry)}"
    by (auto simp: dict_getitem_key_iff get suite_of_Some_iff)
  have vals: "dict_getitem ?suites name = dict_getitem entry ''expectations_suite''"
    if "dict_getitem ?catalog name = Inr entry \<and> ''expectations_suite'' \<in> set (dict_keys entry)"
    for name entry
  proof -
    from that obtain suite where s: "dict_getitem entry ''expectations_suite'' = Inr suite"
      by (auto simp: dict_getitem_key_iff)
    with that have "suite_of ?catalog name = Some suite"
      by (auto simp: suite_of_Some_iff)
    then show ?thesis by (simp add: s get)
  qed
  from run wf keys vals show ?thesis by blast
qed

theorem get_names_and_expectations_suite_exact_witness:
  "get_names_and_expectations_suite \<lparr>config_loader_get_catalog = example_catalog\<rparr> =
     Inr [(''cars'', PStr ''suites/cars.json'')] \<and>
   dict_getitem example_catalog ''cars'' =
     Inr [(''type'', PStr ''CSVLocalDataSet''),
          (''filepath'', PStr ''data/01_raw/cars.csv''),
          (''expectations_suite'', PStr ''suites/cars.json'')] \<and>
   set (dict_keys [(''cars'', PStr ''suites/cars.json'')]) = {''cars''}"
  using get_names_and_expectations_suite_exact
          [of "\<lparr>config_loader_get_catalog = example_catalog\<rparr>"]
  by (simp add: example_catalog_def get_names_and_expectations_suite_def dict_keys_def
        dict_getitem_def)

section \<open>Config scanners: the catalog without its suites\<close>

lemma entry_comprehension_filter:
  "distinct (map fst items) \<Longrightarrow> fst ` set items \<inter> fst ` set acc = {} \<Longrightarrow>
   entry_comprehension items acc = acc @ strip_entry items"
proof (induction items acc rule: entry_comprehension.induct)
  case (1 entry)
  show ?case by (simp add: strip_entry_def)
next
  case (2 key val items entry)
  show ?case
  proof (cases "key \<noteq> ''expectations_suite''")
    case True
    have fresh: "key \<notin> fst ` set entry" using 2(4) by auto
    have d: "distinct (map fst items)" using 2(3) by simp
    have "fst ` set items \<inter> fst ` set (dict_setitem entry key val) = {}"
      using 2(3,4) by (auto simp: keys_dict_setitem)
    from 2(1)[OF True d this] show ?thesis
      using True by (simp add: dict_setitem_fresh[OF fresh] strip_entry_def)
  next
    case False
    have d: "distinct (map fst items)" using 2(3) by simp
    have "fst ` set items \<inter> fst ` set entry = {}" using 2(4) by auto
    from 2(2)[OF False d this] show ?thesis
      using False by (simp add: strip_entry_def)
  qed
qed

lemma entry_comprehension_strip:
  "wf_dict entry \<Longrightarrow> entry_comprehension (dict_items entry) [] = strip_entry entry"
  using entry_comprehension_filter[of entry "[]"] by (simp add: wf_dict_def dict_items_def)

lemma catalog_comprehension_map:
  assumes "wf_catalog catalog"
  shows "distinct (map fst xs) \<Longrightarrow> set xs \<subseteq> set catalog \<Longrightarrow>
         fst ` set xs \<inter> fst ` set acc = {} \<Longrightarrow>
         catalog_comprehension catalog (map fst xs) acc =
           Inr (acc @ map (\<lambda>(name, entry). (name, strip_entry entry)) xs)"
proof (induction xs arbitrary: acc)
  case Nil
  show ?case by simp
next
  case (Cons x xs)
  obtain name entry where x: "x = (name, entry)" by (cases x)
  have mem: "(name, entry) \<in> set catalog" using Cons.prems(2) x by simp
  have dc: "distinct (map fst catalog)" using assms by (simp add: wf_catalog_def wf_dict_def)
  have g: "dict_getitem catalog name = Inr entry"
    using mem dc by (simp add: dict_getitem_Inr_iff)
  have we: "wf_dict entry"
    using assms mem by (auto simp: wf_catalog_def list_all_iff)
  have fresh: "name \<notin> fst ` set acc" using Cons.prems(3) x by auto
  have d: "distinct (map fst xs)" using Cons.prems(1) by simp
  have s: "set xs \<subseteq> set catalog" using Cons.prems(2) by simp
  have "fst ` set xs \<inter> fst ` set (dict_setitem acc name (strip_entry entry)) = {}"
    using Cons.prems(1,3) x by (auto simp: keys_dict_setitem)
  from Cons.IH[OF d s this] show ?case
    by (simp add: x g entry_comprehension_strip[OF we] dict_setitem_fresh[OF fresh])
qed

lemma remove_closed_form:
  assumes "wf_catalog (config_loader_get_catalog ctx)"
  shows "remove_expectations_suite_from_catalog ctx =
           Inr (map (\<lambda>(name, entry). (name, strip_entry entry)) (config_loader_get_catalog ctx))"
proof -
  let ?c = "config_loader_get_catalog ctx"
  have "distinct (map fst ?c)" using assms by (simp add: wf_catalog_def wf_dict_def)
  from catalog_comprehension_map[OF assms this, of "[]"] show ?thesis
    by (simp add: remove_expectations_suite_from_catalog_def Let_def dict_keys_def)
qed

text \<open>
  Claim C3. For every catalog configuration, \<open>remove_expectations_suite_from_catalog\<close>
  returns a catalog with the same dataset names, in which the entry of every dataset is
  the original entry without the key \<^verbatim>\<open>expectations_suite\<close>, every other key-value pair
  unchanged.
\<close>

theorem remove_expectations_suite_from_catalog_strips:
  assumes "wf_catalog (config_loader_get_catalog project_context)"
  shows "\<exists>stripped. remove_expectations_suite_from_catalog project_context = Inr stripped \<and>
           wf_catalog stripped \<and>
           dict_keys stripped = dict_keys (config_loader_get_catalog project_context) \<and>
           (\<forall>name entry.
              dict_getitem (config_loader_get_catalog project_context) name = Inr entry \<longrightarrow>
              dict_getitem stripped name =
                Inr (filter (\<lambda>(key, val). key \<noteq> ''expectations_suite'') entry))"
proof -
  let ?catalog = "config_loader_get_catalog project_context"
  let ?stripped = "map (\<lambda>(name, entry). (name, strip_entry entry)) ?catalog"
  have run: "remove_expectations_suite_from_catalog project_context = Inr ?stripped"
    using assms by (rule remove_closed_form)
  have keys: "dict_keys ?stripped = dict_keys ?catalog"
    by (simp add: dict_keys_def case_prod_unfold comp_def)
  have fsts: "map fst ?stripped = map fst ?catalog"
    by (simp add: case_prod_unfold comp_def)
  have strip_wf: "wf_dict (strip_entry entry)" if "wf_dict entry" for entry :: "pyval dict"
    using that by (simp add: wf_dict_def strip_entry_def distinct_map_filter)
  have "wf_dict ?stripped"
    using assms unfolding wf_dict_def fsts by (simp add: wf_catalog_def wf_dict_def)
  moreover have "list_all (\<lambda>(name, entry). wf_dict entry) ?stripped"
    using assms strip_wf by (auto simp: wf_catalog_def list_all_iff)
  ultimately have wf: "wf_catalog ?stripped"
    by (simp add: wf_catalog_def)
  have vals: "dict_getitem ?stripped name =
                Inr (filter (\<lambda>(key, val). key \<noteq> ''expectations_suite'') entry)"
    if "dict_getitem ?catalog name = Inr entry" for name entry
    using that by (simp add: dict_getitem_Inr_iff map_of_map_values strip_entry_def)
  from run wf keys vals show ?thesis by blast
qed

theorem remove_expectations_suite_from_catalog_strips_witness:
  "wf_catalog example_catalog \<and>
   remove_expectations_suite_from_catalog \<lparr>config_loader_get_catalog = example_catalog\<rparr> =
     Inr [(''cars'', [(''type'', PStr ''CSVLocalDataSet''),
                      (''filepath'', PStr ''data/01_raw/cars.csv'')]),
          (''boats'', [(''type'', PStr ''CSVLocalDataSet''),
                       (''filepath'', PStr ''data/01_raw/boats.csv'')])]"
proof -
  have wf: "wf_catalog (config_loader_get_catalog \<lparr>config_loader_get_catalog = example_catalog\<rparr>)"
    by (simp add: wf_catalog_def wf_dict_def example_catalog_def)
  from remove_expectations_suite_from_catalog_strips [OF wf] wf show ?thesis
    by (simp add: example_catalog_def remove_expectations_suite_from_catalog_def dict_keys_def
          dict_getitem_def dict_items_def)
qed

section \<open>Failure policy\<close>

lemmas action_defs = and_then_def return_def raise_def lift_def logger_def record_event_def

lemma failed_validations_missing:
  "\<exists>r \<in> set rs. missing_column r \<Longrightarrow>
   failed_validations_comprehension rs acc = Inl (KeyError ''column'')"
proof (induction rs arbitrary: acc)
  case Nil
  then show ?case by simp
next
  case (Cons r rs)
  show ?case
  proof (cases "missing_column r")
    case True
    then have "map_of (kwargs (expectation_config r)) ''column'' = None"
      by (simp add: missing_column_def dict_keys_def map_of_eq_None_iff)
    with True show ?thesis by (simp add: missing_column_def dict_getitem_def)
  next
    case False
    with Cons.prems have ex: "\<exists>r \<in> set rs. missing_column r" by auto
    show ?thesis
    proof (cases "result_success r")
      case True
      with Cons.IH[OF ex] show ?thesis by simp
    next
      case fail: False
      with False obtain c where "map_of (kwargs (expectation_config r)) ''column'' = Some c"
        using map_of_eq_None_iff[of "kwargs (expectation_config r)" "''column''"]
        by (auto simp: missing_column_def dict_keys_def)
      with fail Cons.IH[OF ex] show ?thesis by (simp add: dict_getitem_def)
    qed
  qed
qed

lemma failed_validations_fold:
  "\<forall>r \<in> set rs. \<not> missing_column r \<Longrightarrow>
   failed_validations_comprehension rs acc = Inr (fold insert_failed (failed_columns rs) acc)"
proof (induction rs arbitrary: acc)
  case Nil
  then show ?case by simp
next
  case (Cons r rs)
  then have IH: "failed_validations_comprehension rs acc' =
                   Inr (fold insert_failed (failed_columns rs) acc')" for acc'
    by simp
  show ?case
  proof (cases "result_success r")
    case True
    then show ?thesis by (simp add: IH)
  next
    case False
    with Cons.prems obtain c where "map_of (kwargs (expectation_config r)) ''column'' = Some c"
      using map_of_eq_None_iff[of "kwargs (expectation_config r)" "''column''"]
      by (auto simp: missing_column_def dict_keys_def)
    with False show ?thesis by (simp add: IH dict_getitem_def)
  qed
qed

lemma map_of_fold_insert_failed:
  "map_of (fold insert_failed xs acc) k =
     (case map_of (rev xs) k of None \<Rightarrow> map_of acc k | Some c \<Rightarrow> Some c)"
proof (induction xs arbitrary: acc)
  case Nil
  show ?case by simp
next
  case (Cons x xs)
  show ?case
    by (cases x) (simp add: Cons.IH map_of_dict_setitem map_add_def split: option.splits)
qed

lemma keys_fold_insert_failed:
  "fst ` set (fold insert_failed xs acc) = fst ` set xs \<union> fst ` set acc"
proof (induction xs arbitrary: acc)
  case Nil
  show ?case by simp
next
  case (Cons x xs)
  obtain t c where x: "x = (t, c)" by (cases x)
  have "fst ` set (fold insert_failed (x # xs) acc) = fst ` set xs \<union> insert t (fst ` set acc)"
    by (simp add: x Cons.IH keys_dict_setitem)
  also have "\<dots> = fst ` set (x # xs) \<union> fst ` set acc"
    by (simp add: x)
  finally show ?case .
qed

lemma wf_fold_insert_failed: "wf_dict acc \<Longrightarrow> wf_dict (fold insert_failed xs acc)"
  by (induction xs arbitrary: acc) (auto simp: wf_dict_setitem)

lemma fst_failed_columns:
  "\<forall>r \<in> set rs. \<not> missing_column r \<Longrightarrow>
   fst ` set (failed_columns rs) =
     {expectation_type (expectation_config r) | r. r \<in> set rs \<and> \<not> result_success r}"
proof (induction rs)
  case Nil
  show ?case by simp
next
  case (Cons r rs)
  then have IH: "fst ` set (failed_columns rs) =
     {expectation_type (expectation_config r) | r. r \<in> set rs \<and> \<not> result_success r}"
    by simp
  show ?case
  proof (cases "result_success r")
    case True
    then show ?thesis by (auto simp: IH)
  next
    case False
    with Cons.prems obtain c where "map_of (kwargs (expectation_config r)) ''column'' = Some c"
      using map_of_eq_None_iff[of "kwargs (expectation_config r)" "''column''"]
      by (auto simp: missing_column_def dict_keys_def)
    with False show ?thesis by (auto simp: IH)
  qed
qed

lemma raise_on_failure_strict_failed:
  assumes "break_on_failure self" and "\<not> success validation"
  shows "raise_on_failure self validation w =
     (case failed_validations_comprehension (results validation) [] of
        Inl e \<Rightarrow> (Inl e, w)
      | Inr failed \<Rightarrow>
          (Inl (FailedValidationException []),
           w\<lparr>events := events w @
                [Logged ''ExpectationsEvaluator'' ERROR (FollowingExpectationsFailed failed)]\<rparr>))"
  using assms by (simp add: raise_on_failure_def action_defs split: sum.splits)

lemma raise_on_failure_lenient_failed:
  assumes "\<not> break_on_failure self" and "\<not> success validation"
  shows "raise_on_failure self validation w =
     (Inr (), w\<lparr>events := events w @
                [Logged ''ExpectationsEvaluator'' WARNING (Statistics (statistics validation))]\<rparr>)"
  using assms by (simp add: raise_on_failure_def action_defs)

lemma raise_on_failure_success:
  assumes "success validation"
  shows "raise_on_failure self validation w =
     (Inr (), w\<lparr>events := events w @
                [Logged ''ExpectationsEvaluator'' INFO (Statistics (statistics validation))]\<rparr>)"
  using assms by (simp add: raise_on_failure_def action_defs)

lemma raise_on_failure_policy:
  assumes "\<forall>r \<in> set (results validation). \<not> missing_column r"
  shows "(fst (raise_on_failure self validation w) = Inl (FailedValidationException []) \<longleftrightarrow>
            break_on_failure self \<and> \<not> success validation) \<and>
         (fst (raise_on_failure self validation w) = Inr () \<longleftrightarrow>
            \<not> (break_on_failure self \<and> \<not> success validation))"
proof (cases "success validation")
  case True
  then show ?thesis by (simp add: raise_on_failure_success)
next
  case False
  show ?thesis
  proof (cases "break_on_failure self")
    case True
    with False assms show ?thesis
      by (simp add: raise_on_failure_strict_failed failed_validations_fold)
  next
    case lenient: False
    with False show ?thesis by (simp add: raise_on_failure_lenient_failed)
  qed
qed

text \<open>
  Claim C1. The failure policy is stated to raise \<open>FailedValidationException\<close> exactly
  when \<^verbatim>\<open>break_on_failure\<close> is true and the result's success flag is false, and to log a
  warning without raising when \<^verbatim>\<open>break_on_failure\<close> is false and the result fails. On a
  failing result whose failed expectation is a table-level one (no \<^verbatim>\<open>column\<close> keyword
  argument) the strict call ends in \<open>KeyError\<close> instead, before anything is logged; the
  lenient call on the same result logs the warning and returns. Lemma
  \<open>raise_on_failure_policy\<close> above shows the stated policy on every other result.
\<close>

theorem raise_on_failure_table_failure:
  "break_on_failure strict_evaluator \<and> \<not> success table_failure \<and>
   raise_on_failure strict_evaluator table_failure example_world =
     (Inl (KeyError ''column''), example_world) \<and>
   raise_on_failure lenient_evaluator table_failure example_world =
     (Inr (), example_world\<lparr>events :=
        [Logged ''ExpectationsEvaluator'' WARNING (Statistics example_statistics)]\<rparr>)"
  by (simp add: raise_on_failure_def action_defs strict_evaluator_def lenient_evaluator_def
        table_failure_def column_failure_def row_count_def dict_getitem_def example_world_def)

text \<open>
  Claim C9. In strict mode on a failing result, \<open>raise_on_failure\<close> reaches
  \<open>FailedValidationException\<close> exactly when every failed outcome carries a \<^verbatim>\<open>column\<close>
  keyword argument; when some failed outcome has none, the call ends in
  \<open>KeyError ''column''\<close> and leaves the world as it was.
\<close>

theorem raise_on_failure_strict_needs_column:
  assumes "break_on_failure self" and "\<not> success validation"
  shows "((\<exists>args. fst (raise_on_failure self validation w) = Inl (FailedValidationException args))
            \<longleftrightarrow> (\<forall>r \<in> set (results validation). \<not> missing_column r)) \<and>
         ((\<exists>r \<in> set (results validation). missing_column r) \<longrightarrow>
            raise_on_failure self validation w = (Inl (KeyError ''column''), w))"
proof (cases "\<exists>r \<in> set (results validation). missing_column r")
  case True
  then have "raise_on_failure self validation w = (Inl (KeyError ''column''), w)"
    using assms by (simp add: raise_on_failure_strict_failed failed_validations_missing)
  with True show ?thesis by simp
next
  case False
  then have "\<forall>r \<in> set (results validation). \<not> missing_column r" by simp
  then have "fst (raise_on_failure self validation w) = Inl (FailedValidationException [])"
    using assms by (simp add: raise_on_failure_strict_failed failed_validations_fold)
  with False show ?thesis by simp
qed

theorem raise_on_failure_strict_needs_column_witness:
  "break_on_failure strict_evaluator \<and> \<not> success table_failure \<and>
   row_count \<in> set (results table_failure) \<and> missing_column row_count \<and>
   raise_on_failure strict_evaluator table_failure example_world =
     (Inl (KeyError ''column''), example_world)"
proof -
  have b: "break_on_failure strict_evaluator" by (simp add: strict_evaluator_def)
  have f: "\<not> success table_failure" by (simp add: table_failure_def column_failure_def)
  have m: "row_count \<in> set (results table_failure)"
    by (simp add: table_failure_def column_failure_def)
  have c: "missing_column row_count"
    by (simp add: missing_column_def row_count_def dict_keys_def)
  from m c have "\<exists>r \<in> set (results table_failure). missing_column r" by blast
  with raise_on_failure_strict_needs_column [OF b f, of example_world] b f m c
  show ?thesis by simp
qed

text \<open>
  Claim C7, as stated: the exception raised in strict mode lists the failed expectation
  types and their columns. The exception is raised as the bare class, so its arguments are
  empty, also when an expectation has failed on a column.
\<close>

theorem exception_lists_nothing_counterexample:
  "break_on_failure strict_evaluator \<and> \<not> success column_failure \<and>
   fst (raise_on_failure strict_evaluator column_failure example_world) =
     Inl (FailedValidationException []) \<and>
   failed_columns (results column_failure) =
     [(''expect_column_values_to_not_be_null'', PStr ''price'')] \<and>
   \<not> exception_lists_failures (FailedValidationException [])
       (failed_columns (results column_failure))"
  by (simp add: raise_on_failure_def action_defs strict_evaluator_def
        column_failure_def null_price_def dict_getitem_def exception_lists_failures_def)

text \<open>
  Claim C7, amended. When \<^verbatim>\<open>break_on_failure\<close> is true, the result fails and every failed
  outcome has a \<^verbatim>\<open>column\<close> keyword argument, \<open>raise_on_failure\<close> logs one record at level
  ERROR holding a dictionary whose keys are exactly the failed expectation types, each
  mapped to the column of the last failed outcome of that type, and then raises
  \<open>FailedValidationException\<close> without arguments.
\<close>

theorem raise_on_failure_strict_logs_failures:
  assumes "break_on_failure self" and "\<not> success validation"
    and "\<forall>r \<in> set (results validation). \<not> missing_column r"
  shows "\<exists>failed.
           raise_on_failure self validation w =
             (Inl (FailedValidationException []),
              w\<lparr>events := events w @
                   [Logged ''ExpectationsEvaluator'' ERROR (FollowingExpectationsFailed failed)]\<rparr>) \<and>
           wf_dict failed \<and>
           set (dict_keys failed) =
             {expectation_type (expectation_config r) | r.
                r \<in> set (results validation) \<and> \<not> result_success r} \<and>
           (\<forall>expectation.
              map_of failed expectation =
                map_of (rev (failed_columns (results validation))) expectation)"
proof -
  let ?failed = "fold insert_failed (failed_columns (results validation)) []"
  have run: "raise_on_failure self validation w =
             (Inl (FailedValidationException []),
              w\<lparr>events := events w @
                   [Logged ''ExpectationsEvaluator'' ERROR (FollowingExpectationsFailed ?failed)]\<rparr>)"
    using assms by (simp add: raise_on_failure_strict_failed failed_validations_fold)
  have wf: "wf_dict ?failed"
    by (rule wf_fold_insert_failed) (simp add: wf_dict_def)
  have keys: "set (dict_keys ?failed) =
             {expectation_type (expectation_config r) | r.
                r \<in> set (results validation) \<and> \<not> result_success r}"
    using fst_failed_columns[OF assms(3)]
    by (simp add: dict_keys_def keys_fold_insert_failed)
  have vals: "map_of ?failed expectation =
                map_of (rev (failed_columns (results validation))) expectation" for expectation
    by (simp add: map_of_fold_insert_failed split: option.splits)
  from run wf keys vals show ?thesis by blast
qed

theorem raise_on_failure_strict_logs_failures_witness:
  "break_on_failure strict_evaluator \<and> \<not> success column_failure \<and>
   list_all (\<lambda>r. \<not> missing_column r) (results column_failure) \<and>
   raise_on_failure strict_evaluator column_failure example_world =
     (Inl (FailedValidationException []),
      example_world\<lparr>events :=
        [Logged ''ExpectationsEvaluator'' ERROR
           (FollowingExpectationsFailed
              [(''expect_column_values_to_not_be_null'', PStr ''price'')])]\<rparr>)"
proof -
  have b: "break_on_failure strict_evaluator" by (simp add: strict_evaluator_def)
  have f: "\<not> success column_failure" by (simp add: column_failure_def)
  have c: "\<forall>r \<in> set (results column_failure). \<not> missing_column r"
    by (simp add: column_failure_def missing_column_def null_price_def dict_keys_def)
  from raise_on_failure_strict_logs_failures [OF b f c, of example_world] b f c
  show ?thesis
    by (simp add: raise_on_failure_def action_defs strict_evaluator_def column_failure_def
          null_price_def dict_getitem_def example_world_def list_all_iff)
qed

section \<open>Path resolution and the file operations\<close>

lemma node_at_setitem:
  "node_at (dict_setitem f q n) x =
     (if x = [] then Some Directory else if x = q then Some n else node_at f x)"
  by (simp add: node_at_def map_of_dict_setitem)

lemma node_at_root: "node_at f [] = Some Directory"
  by (simp add: node_at_def)










lemma walk_Inr_iff:
  "walk f p cur cs = Inr q \<longleftrightarrow>
     q = foldl descend cur cs \<and>
     (\<forall>x \<in> set (butlast (cur # visited_from cur cs)). node_at f x = Some Directory)"
proof (induction cs arbitrary: cur)
  case Nil
  show ?case by auto
next
  case (Cons c cs)
  show ?case
  proof (cases "node_at f cur = Some Directory")
    case True
    then have "walk f p cur (c # cs) = walk f p (descend cur c) cs" by simp
    with Cons.IH[of "descend cur c"] True show ?thesis by simp
  next
    case False
    then have "\<exists>e. walk f p cur (c # cs) = Inl e"
      by (auto split: option.splits node.splits)
    with False show ?thesis by auto
  qed
qed


lemma lookup_Inr_iff:
  "lookup f p = Inr q \<longleftrightarrow>
     q = location p \<and> (\<forall>x \<in> set (butlast ([] # visited p)). node_at f x = Some Directory)"
  by (simp add: lookup_def walk_Inr_iff location_def visited_def)


lemma lookup_location: "lookup f p = Inr q \<Longrightarrow> q = location p"
  by (simp add: lookup_Inr_iff)



text \<open>Resolution depends on the directories only: it goes the same way in a file system
  that has them all.\<close>

lemma lookup_mono:
  assumes "lookup f p = Inr q"
    and "\<And>x. node_at f x = Some Directory \<Longrightarrow> node_at f' x = Some Directory"
  shows "lookup f' p = Inr q"
  using assms unfolding lookup_Inr_iff by auto

lemma stat_lookup:
  "lookup f p = Inr q \<Longrightarrow>
   stat f p = (case node_at f q of None \<Rightarrow> Inl (FileNotFoundError p) | Some n \<Rightarrow> Inr n)"
  by (simp add: stat_def)

lemma stat_Inr:
  "stat f p = Inr n \<longleftrightarrow> lookup f p = Inr (location p) \<and> node_at f (location p) = Some n"
proof (cases "lookup f p")
  case (Inl e)
  then show ?thesis by (simp add: stat_def)
next
  case (Inr q)
  then have "q = location p" by (rule lookup_location)
  with Inr show ?thesis by (simp add: stat_def split: option.splits)
qed


lemma is_file_iff: "is_file f p \<longleftrightarrow> (\<exists>c. stat f p = Inr (File c))"
  by (cases "stat f p") (auto simp: is_file_def split: node.splits)






text \<open>What a successful \<^verbatim>\<open>open(p, "w")\<close> has done: the file is where the path leads.\<close>

lemma write_file_Inr:
  assumes "write_file f p c = Inr f'"
  shows "f' = dict_setitem f (location p) (File c)" and "stat f' p = Inr (File c)"
    and "node_at f (location p) \<noteq> Some Directory"
proof -
  obtain q where look: "lookup f p = Inr q"
    using assms by (cases "lookup f p") (simp_all add: write_file_def)
  then have q: "q = location p" by (rule lookup_location)
  from assms look have cond: "p \<noteq> []" "last p \<noteq> ''..''" "node_at f q \<noteq> Some Directory"
    and f': "f' = dict_setitem f q (File c)"
    by (auto simp: write_file_def split: if_splits)
  from f' q show "f' = dict_setitem f (location p) (File c)" by simp
  have ne: "q \<noteq> []" using cond(3) by (auto simp: node_at_def)
  have keep: "node_at f' y = Some Directory" if "node_at f y = Some Directory" for y
    using that cond(3) by (auto simp: f' node_at_setitem node_at_root)
  from look keep have "lookup f' p = Inr q" by (rule lookup_mono)
  moreover have "node_at f' q = Some (File c)" using ne by (simp add: f' node_at_setitem)
  ultimately show "stat f' p = Inr (File c)" using q by (simp add: stat_Inr)
  from cond(3) q show "node_at f (location p) \<noteq> Some Directory" by simp
qed

lemma read_file_Inr: "read_file f p = Inr c \<longleftrightarrow> stat f p = Inr (File c)"
  by (cases "stat f p") (auto simp: read_file_def split: node.splits)

text \<open>What a successful \<^verbatim>\<open>shutil.copy\<close> has done: the destination holds what the source
  held.\<close>

lemma shutil_copy_Inr:
  assumes "shutil_copy f src dst = Inr (f', t)"
  shows "\<exists>c. stat f src = Inr (File c) \<and> stat f' t = Inr (File c) \<and>
             f' = dict_setitem f (location t) (File c) \<and>
             node_at f (location t) \<noteq> Some Directory \<and>
             t = (if is_dir f dst then dst @ (if src = [] then [] else [last src]) else dst)"
proof -
  let ?t = "if is_dir f dst then dst @ (if src = [] then [] else [last src]) else dst"
  from assms have ns: "\<not> samefile f src ?t"
    by (auto simp: shutil_copy_def Let_def split: if_splits)
  with assms obtain c where r: "read_file f src = Inr c"
    by (cases "read_file f src") (simp_all add: shutil_copy_def Let_def)
  with assms ns have w: "write_file f ?t c = Inr f'" and t: "t = ?t"
    by (cases "write_file f ?t c"; simp add: shutil_copy_def Let_def)+
  from r have "stat f src = Inr (File c)" by (simp add: read_file_Inr)
  moreover from write_file_Inr[OF w] t have "stat f' t = Inr (File c)"
    and "f' = dict_setitem f (location t) (File c)"
    and "node_at f (location t) \<noteq> Some Directory" by simp_all
  ultimately show ?thesis using t by blast
qed

section \<open>Actions and paths\<close>

lemma and_then_Inr:
  "and_then m k w = (Inr b, w') \<longleftrightarrow> (\<exists>a w1. m w = (Inr a, w1) \<and> k a w1 = (Inr b, w'))"
  by (cases "m w") (auto simp: and_then_def split: sum.splits)

lemma and_then_step: "m w = (Inr a, w1) \<Longrightarrow> and_then m k w = k a w1"
  by (simp add: and_then_def)

lemma and_then_fail: "m w = (Inl e, w1) \<Longrightarrow> and_then m k w = (Inl e, w1)"
  by (simp add: and_then_def)

lemma components_from_append_slash:
  "components_from cur (a @ CHR ''/'' # b) = components_from cur a @ components_from [] b"
  by (induction a arbitrary: cur) simp_all

lemma components_append_slash:
  "components (a @ CHR ''/'' # b) = components a @ components b"
  by (simp add: components_def components_from_append_slash)

lemma components_from_no_slash:
  "CHR ''/'' \<notin> set s \<Longrightarrow>
   components_from cur s = (if keep_component (cur @ s) then [cur @ s] else [])"
  by (induction s arbitrary: cur) auto

lemma components_plain: "plain_name s \<Longrightarrow> components s = [s]"
  by (simp add: components_def components_from_no_slash plain_name_def keep_component_def)


lemma is_absolute_plain: "plain_name s \<Longrightarrow> \<not> is_absolute s"
  by (cases s) (auto simp: plain_name_def is_absolute_def)




lemma components_from_plain:
  "c \<in> set (components_from cur s) \<Longrightarrow> CHR ''/'' \<notin> set cur \<Longrightarrow> plain_name c"
proof (induction s arbitrary: cur)
  case Nil
  then show ?case by (auto simp: plain_name_def keep_component_def split: if_splits)
next
  case (Cons x s)
  show ?case
  proof (cases "x = CHR ''/''")
    case True
    with Cons.prems(1) have "(keep_component cur \<and> c = cur) \<or> c \<in> set (components_from [] s)"
      by (auto split: if_splits)
    then show ?thesis
    proof
      assume "keep_component cur \<and> c = cur"
      with Cons.prems(2) show ?thesis by (simp add: plain_name_def keep_component_def)
    next
      assume "c \<in> set (components_from [] s)"
      then show ?thesis by (rule Cons.IH) simp
    qed
  next
    case False
    with Cons.prems(1) have mem: "c \<in> set (components_from (cur @ [x]) s)" by simp
    have "CHR ''/'' \<notin> set (cur @ [x])" using Cons.prems(2) False by auto
    from Cons.IH[OF mem this] show ?thesis .
  qed
qed

lemma components_plain_names: "c \<in> set (components s) \<Longrightarrow> plain_name c"
  using components_from_plain[of c "[]" s] by (simp add: components_def)

lemma components_join_slash:
  "list_all plain_name cs \<Longrightarrow> components (join_slash cs) = cs"
proof (induction cs rule: join_slash.induct)
  case 1
  show ?case by (simp add: components_def keep_component_def)
next
  case (2 c)
  then show ?case by (simp add: components_plain)
next
  case (3 c d ds)
  then have "components (join_slash (d # ds)) = d # ds" by simp
  moreover have "components c = [c]" using 3(2) by (simp add: components_plain)
  ultimately show ?case by (simp add: components_append_slash)
qed

lemma components_after_slash: "components (CHR ''/'' # s) = components s"
  by (simp add: components_def keep_component_def)

lemma join_slash_head:
  "cs \<noteq> [] \<Longrightarrow> list_all plain_name cs \<Longrightarrow> \<not> is_absolute (join_slash cs)"
proof (induction cs rule: join_slash.induct)
  case 1
  then show ?case by simp
next
  case (2 c)
  then show ?case by (simp add: is_absolute_plain)
next
  case (3 c d ds)
  then have "plain_name c" by simp
  then show ?case by (cases c) (auto simp: is_absolute_def plain_name_def)
qed

lemma path_str_parts:
  "is_absolute (path_str s) = is_absolute s \<and> components (path_str s) = components s"
proof -
  have plain: "list_all plain_name (components s)"
    by (simp add: list_all_iff components_plain_names)
  show ?thesis
  proof (cases "is_absolute s")
    case True
    have "anchor s = ''/'' \<or> anchor s = ''//''" by (simp add: anchor_def)
    then show ?thesis
      using True plain
      by (auto simp: path_str_def is_absolute_def components_after_slash components_join_slash)
  next
    case False
    show ?thesis
    proof (cases "components s = []")
      case True
      with False show ?thesis
        by (simp add: path_str_def is_absolute_def components_def keep_component_def)
    next
      case nonempty: False
      with False plain show ?thesis
        by (simp add: path_str_def components_join_slash join_slash_head)
    qed
  qed
qed

lemma joinpath_path_str: "joinpath p (path_str s) = joinpath p s"
  by (simp add: joinpath_def path_str_parts)


section \<open>Result files and suite copies\<close>

lemma kedro_dataset_path_world: "kedro_dataset_path self lib w = (r, w') \<Longrightarrow> w' = w"
  by (auto simp: kedro_dataset_path_def action_defs split: sum.splits)













section \<open>Setup helper and the project's datasources\<close>

lemma joinpath_literals:
  "joinpath p ''great_expectations'' = p @ [''great_expectations'']"
  "joinpath p ''great_expectations.yml'' = p @ [''great_expectations.yml'']"
  "joinpath p ''data'' = p @ [''data'']"
  by (simp_all add: joinpath_def is_absolute_def components_def keep_component_def)


lemma library_effect_Inr:
  "library_effect call w = (Inr a, w') \<Longrightarrow>
   call (fs w) = (Inr a, fs w') \<and> cwd w' = cwd w \<and> events w' = events w \<and> w' = w\<lparr>fs := fs w'\<rparr>"
  by (cases "call (fs w)") (auto simp: library_effect_def split: sum.splits)






text \<open>
  Claim C10. Every construction of the setup helper is stated to clear all previously
  configured datasources and to leave the project with the one datasource \<^verbatim>\<open>data\<close>. The
  setup helper does empty the dictionary that the project object's attribute
  \<^verbatim>\<open>datasources\<close> hands out, but what \<^verbatim>\<open>_save_project_config\<close> writes is the project's
  configuration, and the validation library keeps the two apart, as the example library
  does. In a project configured with the datasource \<^verbatim>\<open>warehouse\<close> the construction returns
  and the saved configuration has the datasources \<^verbatim>\<open>warehouse\<close> and \<^verbatim>\<open>data\<close>.
\<close>

theorem ExpectationsSetup_keeps_datasources:
  "datasource_names (fs example_world) (ge_config_file example_world) = Inr [''warehouse''] \<and>
   ExpectationsSetup_init example_library example_world =
     (Inr (),
      example_world
        \<lparr>fs := dict_setitem (fs example_world) (ge_config_file example_world)
                 (File (ProjectConfig
                    [(''warehouse'', PDict [(''class_name'', PStr ''PandasDatasource'')]),
                     (''data'', PDict (data_keywords
                        [(''01_raw'', subdir_reader_generator ''data/01_raw'')]))]))\<rparr>) \<and>
   datasource_names (fs (snd (ExpectationsSetup_init example_library example_world)))
     (ge_config_file example_world) = Inr [''warehouse'', ''data'']"
  by code_simp

section \<open>Order of the transformer's steps\<close>

lemma emits_and_then:
  assumes m: "emits m s1" and k: "\<And>a. emits (k a) s2"
  shows "emits (and_then m k) (s1 @ s2)"
  unfolding emits_def
proof
  fix w
  obtain r w1 where mw: "m w = (r, w1)" by (cases "m w")
  from m[unfolded emits_def, rule_format, of w] mw obtain new1 where
    nf: "no_fve r" and e1: "events w1 = events w @ new1" and
    p1: "prefix (map step_of new1) s1" and
    full1: "\<not> isl r \<longrightarrow> map step_of new1 = s1" by auto
  show "no_fve (fst (and_then m k w)) \<and>
        (\<exists>new. events (snd (and_then m k w)) = events w @ new \<and>
               prefix (map step_of new) (s1 @ s2) \<and>
               (\<not> isl (fst (and_then m k w)) \<longrightarrow> map step_of new = s1 @ s2))"
  proof (cases r)
    case (Inl e)
    then have "and_then m k w = (Inl e, w1)" by (simp add: and_then_def mw)
    moreover have "no_fve (Inl e :: error + 'c)" using nf Inl by (simp add: no_fve_def)
    ultimately show ?thesis using e1 p1 by (auto intro: prefix_prefix)
  next
    case (Inr a)
    then have at: "and_then m k w = k a w1" by (simp add: and_then_def mw)
    from full1 Inr have m1: "map step_of new1 = s1" by simp
    from k[of a, unfolded emits_def, rule_format, of w1] obtain new2 where
      nf2: "no_fve (fst (k a w1))" and e2: "events (snd (k a w1)) = events w1 @ new2" and
      p2: "prefix (map step_of new2) s2" and
      full2: "\<not> isl (fst (k a w1)) \<longrightarrow> map step_of new2 = s2" by auto
    have "events (snd (k a w1)) = events w @ (new1 @ new2)" by (simp add: e2 e1)
    moreover have "prefix (map step_of (new1 @ new2)) (s1 @ s2)" using m1 p2 by simp
    moreover have "\<not> isl (fst (k a w1)) \<longrightarrow> map step_of (new1 @ new2) = s1 @ s2"
      using m1 full2 by simp
    ultimately show ?thesis unfolding at using nf2 by blast
  qed
qed

lemma finishes_and_then:
  assumes m: "emits m s1" and k: "\<And>a. finishes (k a) s2"
  shows "finishes (and_then m k) (s1 @ s2)"
  unfolding finishes_def
proof
  fix w
  obtain r w1 where mw: "m w = (r, w1)" by (cases "m w")
  from m[unfolded emits_def, rule_format, of w] mw obtain new1 where
    nf: "no_fve r" and e1: "events w1 = events w @ new1" and
    p1: "prefix (map step_of new1) s1" and
    full1: "\<not> isl r \<longrightarrow> map step_of new1 = s1" by auto
  show "\<exists>new. events (snd (and_then m k w)) = events w @ new \<and>
               prefix (map step_of new) (s1 @ s2) \<and>
               (completed (fst (and_then m k w)) \<longrightarrow> map step_of new = s1 @ s2)"
  proof (cases r)
    case (Inl e)
    then have at: "and_then m k w = (Inl e, w1)" by (simp add: and_then_def mw)
    from nf Inl have "\<not> completed (Inl e :: error + 'c)"
      by (cases e) (simp_all add: no_fve_def completed_def)
    with e1 p1 show ?thesis unfolding at by (auto intro: prefix_prefix)
  next
    case (Inr a)
    then have at: "and_then m k w = k a w1" by (simp add: and_then_def mw)
    from full1 Inr have m1: "map step_of new1 = s1" by simp
    from k[of a, unfolded finishes_def, rule_format, of w1] obtain new2 where
      e2: "events (snd (k a w1)) = events w1 @ new2" and
      p2: "prefix (map step_of new2) s2" and
      full2: "completed (fst (k a w1)) \<longrightarrow> map step_of new2 = s2" by auto
    have "events (snd (k a w1)) = events w @ (new1 @ new2)" by (simp add: e2 e1)
    moreover have "prefix (map step_of (new1 @ new2)) (s1 @ s2)" using m1 p2 by simp
    moreover have "completed (fst (k a w1)) \<longrightarrow> map step_of (new1 @ new2) = s1 @ s2"
      using m1 full2 by simp
    ultimately show ?thesis unfolding at by blast
  qed
qed

lemma emits_then_quiet: "emits m [] \<Longrightarrow> (\<And>a. emits (k a) s) \<Longrightarrow> emits (and_then m k) s"
  using emits_and_then[of m "[]" k s] by simp

lemma emits_then_step: "emits m [x] \<Longrightarrow> (\<And>a. emits (k a) s) \<Longrightarrow> emits (and_then m k) (x # s)"
  using emits_and_then[of m "[x]" k s] by simp

lemma finishes_then_quiet: "emits m [] \<Longrightarrow> (\<And>a. finishes (k a) s) \<Longrightarrow> finishes (and_then m k) s"
  using finishes_and_then[of m "[]" k s] by simp

lemma finishes_then_step:
  "emits m [x] \<Longrightarrow> (\<And>a. finishes (k a) s) \<Longrightarrow> finishes (and_then m k) (x # s)"
  using finishes_and_then[of m "[x]" k s] by simp

lemma finishes_then_steps:
  "emits m [x, y] \<Longrightarrow> (\<And>a. finishes (k a) s) \<Longrightarrow> finishes (and_then m k) (x # y # s)"
  using finishes_and_then[of m "[x, y]" k s] by simp

lemma emits_quiet:
  "(\<And>w. no_fve (fst (m w)) \<and> events (snd (m w)) = events w) \<Longrightarrow> emits m []"
  by (simp add: emits_def)

lemma emits_one:
  assumes "\<And>w. no_fve (fst (m w))"
    and "\<And>w. \<exists>e. step_of e = x \<and>
               (events (snd (m w)) = events w @ [e] \<or>
                isl (fst (m w)) \<and> events (snd (m w)) = events w)"
  shows "emits m [x]"
  unfolding emits_def
proof
  fix w
  from assms(2)[of w] obtain e where x: "step_of e = x" and
    c: "events (snd (m w)) = events w @ [e] \<or>
        isl (fst (m w)) \<and> events (snd (m w)) = events w" by blast
  from c show "no_fve (fst (m w)) \<and>
        (\<exists>new. events (snd (m w)) = events w @ new \<and> prefix (map step_of new) [x] \<and>
               (\<not> isl (fst (m w)) \<longrightarrow> map step_of new = [x]))"
  proof
    assume "events (snd (m w)) = events w @ [e]"
    with x assms(1)[of w] show ?thesis by (intro conjI exI[of _ "[e]"]) simp_all
  next
    assume "isl (fst (m w)) \<and> events (snd (m w)) = events w"
    with assms(1)[of w] show ?thesis by (intro conjI exI[of _ "[]"]) simp_all
  qed
qed

lemma no_fve_simple:
  "no_fve (Inr a)" "no_fve (Inl (KeyError k))" "no_fve (Inl IndexError)" "no_fve (Inl TypeError)"
  "no_fve (Inl (FileNotFoundError p))" "no_fve (Inl (FileExistsError p))"
  "no_fve (Inl (NotADirectoryError p))" "no_fve (Inl (IsADirectoryError p))"
  "no_fve (Inl (SameFileError p))" "no_fve (Inl (LibraryError s))"
  "no_fve (Inl (UnboundLocalError s))"
  by (simp_all add: no_fve_def)

lemma no_fve_dict_getitem: "no_fve (dict_getitem d k)"
  by (simp add: no_fve_def dict_getitem_def split: option.splits)

lemma no_fve_last_part: "no_fve (last_part s)"
  by (simp add: no_fve_def last_part_def split: list.splits)

lemma no_fve_walk: "no_fve (walk f p cur cs)"
  by (induction cs arbitrary: cur) (simp_all add: no_fve_simple split: option.splits node.splits)

lemma no_fve_lookup: "no_fve (lookup f p)"
  by (simp add: lookup_def no_fve_walk)

lemma no_fve_Inl: "no_fve r \<Longrightarrow> r = Inl e \<Longrightarrow> no_fve (Inl e :: error + 'b)"
  by (simp add: no_fve_def)

lemma no_fve_stat: "no_fve (stat f p)"
proof (cases "lookup f p")
  case (Inl e)
  from no_fve_Inl[OF no_fve_lookup Inl] Inl show ?thesis by (simp add: stat_def)
next
  case (Inr q)
  then show ?thesis by (simp add: stat_def no_fve_simple split: option.splits)
qed

lemma no_fve_os_mkdir: "no_fve (os_mkdir f p)"
proof (cases "lookup f p")
  case (Inl e)
  from no_fve_Inl[OF no_fve_lookup Inl] Inl show ?thesis by (simp add: os_mkdir_def)
next
  case (Inr q)
  then show ?thesis by (simp add: os_mkdir_def no_fve_simple)
qed

lemma no_fve_mkdir_exist_ok: "no_fve (mkdir_exist_ok f p)"
proof (cases "os_mkdir f p")
  case (Inl e)
  have "no_fve (Inl e :: error + fs)" by (rule no_fve_Inl[OF no_fve_os_mkdir Inl])
  with Inl show ?thesis by (simp add: mkdir_exist_ok_def no_fve_simple)
next
  case (Inr g)
  then show ?thesis by (simp add: mkdir_exist_ok_def no_fve_simple)
qed

lemma no_fve_mkdir_parents: "no_fve (mkdir_parents_exist_ok f p)"
proof (induction f p rule: mkdir_parents_exist_ok.induct)
  case (1 f p)
  show ?case
  proof (cases "os_mkdir f p")
    case (Inr g)
    then show ?thesis by (subst mkdir_parents_exist_ok.simps) (simp add: no_fve_simple)
  next
    case (Inl e)
    from no_fve_Inl[OF no_fve_os_mkdir Inl] have ne: "no_fve (Inl e :: error + fs)" .
    show ?thesis
    proof (cases "not_found e \<and> p \<noteq> []")
      case False
      with Inl ne show ?thesis
        by (subst mkdir_parents_exist_ok.simps) (auto simp: no_fve_simple)
    next
      case True
      show ?thesis
      proof (cases "mkdir_parents_exist_ok f (butlast p)")
        case inner: (Inl e')
        from 1[OF Inl] True have "no_fve (mkdir_parents_exist_ok f (butlast p))" by simp
        from no_fve_Inl[OF this inner] have "no_fve (Inl e' :: error + fs)" .
        with Inl True inner show ?thesis
          by (subst mkdir_parents_exist_ok.simps) simp
      next
        case (Inr f1)
        with Inl True show ?thesis
          by (subst mkdir_parents_exist_ok.simps) (simp add: no_fve_mkdir_exist_ok)
      qed
    qed
  qed
qed

lemma no_fve_write_file: "no_fve (write_file f p c)"
proof (cases "lookup f p")
  case (Inl e)
  from no_fve_Inl[OF no_fve_lookup Inl] Inl show ?thesis by (simp add: write_file_def)
next
  case (Inr q)
  then show ?thesis by (simp add: write_file_def no_fve_simple)
qed

lemma no_fve_read_file: "no_fve (read_file f p)"
proof (cases "stat f p")
  case (Inl e)
  from no_fve_Inl[OF no_fve_stat Inl] Inl show ?thesis by (simp add: read_file_def)
next
  case (Inr n)
  then show ?thesis by (cases n) (simp_all add: read_file_def no_fve_simple)
qed

lemma no_fve_shutil_copy: "no_fve (shutil_copy f src dst)"
proof -
  let ?t = "if is_dir f dst then dst @ (if src = [] then [] else [last src]) else dst"
  show ?thesis
  proof (cases "samefile f src ?t")
    case True
    then show ?thesis by (simp add: shutil_copy_def Let_def no_fve_simple)
  next
    case False
    show ?thesis
    proof (cases "read_file f src")
      case (Inl e)
      from no_fve_Inl[OF no_fve_read_file Inl] Inl False show ?thesis
        by (simp add: shutil_copy_def Let_def)
    next
      case (Inr c)
      show ?thesis
      proof (cases "write_file f ?t c")
        case wl: (Inl e)
        from no_fve_Inl[OF no_fve_write_file wl] wl Inr False show ?thesis
          by (simp add: shutil_copy_def Let_def)
      next
        case wr: (Inr f')
        with Inr False show ?thesis by (simp add: shutil_copy_def Let_def no_fve_simple)
      qed
    qed
  qed
qed

lemma emits_lift: "no_fve r \<Longrightarrow> emits (lift r) []"
  by (rule emits_quiet) (simp add: lift_def)

lemma emits_return: "emits (return a) []"
  by (rule emits_quiet) (simp add: return_def no_fve_def)

lemma emits_raise_TypeError: "emits (raise TypeError) []"
  by (rule emits_quiet) (simp add: raise_def no_fve_def)

lemma emits_library_call: "emits (library_call r) []"
  by (rule emits_quiet) (simp add: library_call_def no_fve_def split: sum.splits)

lemma emits_library_effect: "emits (library_effect call) []"
proof (rule emits_quiet)
  fix w
  show "no_fve (fst (library_effect call w)) \<and> events (snd (library_effect call w)) = events w"
    by (cases "call (fs w)") (auto simp: library_effect_def no_fve_def split: sum.splits)
qed

lemma emits_getcwd: "emits getcwd []"
  by (rule emits_quiet) (simp add: getcwd_def no_fve_def)

lemma emits_ge_data_context: "emits (ge_data_context lib) []"
proof (rule emits_quiet)
  fix w
  show "no_fve (fst (ge_data_context lib w)) \<and> events (snd (ge_data_context lib w)) = events w"
    by (cases "DataContext lib (joinpath (cwd w) ''great_expectations'') (fs w)")
       (auto simp: ge_data_context_def library_effect_def no_fve_def split: sum.splits)
qed

lemma emits_logger: "emits (logger name lvl msg) [LogStep]"
  by (rule emits_one) (auto simp: logger_def record_event_def no_fve_def)

lemma emits_path_mkdir: "emits (path_mkdir p) [MkdirStep]"
proof (rule emits_one)
  fix w
  show "no_fve (fst (path_mkdir p w))"
    using no_fve_mkdir_parents[of "fs w" p]
    by (auto simp: path_mkdir_def no_fve_def split: sum.splits)
  show "\<exists>e. step_of e = MkdirStep \<and>
            (events (snd (path_mkdir p w)) = events w @ [e] \<or>
             isl (fst (path_mkdir p w)) \<and> events (snd (path_mkdir p w)) = events w)"
    by (intro exI[of _ "DirectoryMade p"]) (auto simp: path_mkdir_def split: sum.splits)
qed

lemma emits_open_write: "emits (open_write p c) [WriteStep]"
proof (rule emits_one)
  fix w
  show "no_fve (fst (open_write p c w))"
    using no_fve_write_file[of "fs w" p c]
    by (auto simp: open_write_def no_fve_def split: sum.splits)
  show "\<exists>e. step_of e = WriteStep \<and>
            (events (snd (open_write p c w)) = events w @ [e] \<or>
             isl (fst (open_write p c w)) \<and> events (snd (open_write p c w)) = events w)"
    by (intro exI[of _ "FileWritten p"]) (auto simp: open_write_def split: sum.splits)
qed

lemma emits_copy_file: "emits (copy_file src dst) [CopyStep]"
proof (rule emits_one)
  fix w
  show "no_fve (fst (copy_file src dst w))"
    using no_fve_shutil_copy[of "fs w" src dst]
    by (auto simp: copy_file_def no_fve_def split: sum.splits)
  show "\<exists>e. step_of e = CopyStep \<and>
            (events (snd (copy_file src dst w)) = events w @ [e] \<or>
             isl (fst (copy_file src dst w)) \<and> events (snd (copy_file src dst w)) = events w)"
  proof (cases "shutil_copy (fs w) src dst")
    case (Inl e)
    then show ?thesis by (intro exI[of _ "FileCopied src dst"]) (simp add: copy_file_def)
  next
    case (Inr fd)
    then show ?thesis
      by (cases fd) (auto simp: copy_file_def intro!: exI[of _ "FileCopied src (snd fd)"])
  qed
qed

lemma emits_call_load: "emits (call_load load_callable) [CallableStep]"
  by (rule emits_one)
     (auto simp: call_load_def library_call_def no_fve_def split: sum.splits
        intro!: exI[of _ LoadCalled])

lemma emits_call_save: "emits (call_save save_callable data) [CallableStep]"
  by (rule emits_one)
     (auto simp: call_save_def no_fve_def split: sum.splits intro!: exI[of _ SaveCalled])

lemma emits_call_validate:
  "emits (call_validate lib p suite rid ce rf) [ValidateStep]"
  by (rule emits_one)
     (auto simp: call_validate_def library_call_def no_fve_def split: sum.splits
        intro!: exI[of _ "ValidateCalled suite rid ce rf"])

lemma emits_kedro_dataset_path: "emits (kedro_dataset_path self lib) []"
  unfolding kedro_dataset_path_def
  by (intro emits_then_quiet emits_lift no_fve_dict_getitem)

lemma emits_normalize_data_asset: "emits (normalize_data_asset lib v) []"
  unfolding normalize_data_asset_def
proof (rule emits_then_quiet[OF emits_ge_data_context])
  fix ctxt
  show "emits (case v of
                 PStr potential_path \<Rightarrow>
                   library_call (normalize_data_asset_name lib ctxt (path_str potential_path))
               | _ \<Rightarrow> raise TypeError) []"
    by (cases v) (simp_all add: emits_library_call emits_raise_TypeError)
qed

lemma emits_copy_expectations:
  "emits (copy_expectations_to_great_expectations self lib path_to_expectations)
     [MkdirStep, CopyStep]"
  unfolding copy_expectations_to_great_expectations_def Let_def
  by (intro emits_then_quiet[OF emits_kedro_dataset_path]
        emits_then_quiet[OF emits_normalize_data_asset]
        emits_then_quiet[OF emits_ge_data_context]
        emits_then_quiet[OF emits_lift] no_fve_last_part
        emits_then_quiet[OF emits_getcwd]
        emits_then_step[OF emits_path_mkdir] emits_copy_file)

lemma emits_log_validating: "emits (log_validating self) [LogStep]"
  unfolding log_validating_def
  by (intro emits_then_quiet[OF emits_lift] no_fve_last_part emits_logger)

lemma emits_suite_file_name:
  "emits (case v of PStr name \<Rightarrow> return (name @ ''.json'') | _ \<Rightarrow> raise TypeError) []"
  by (cases v) (simp_all add: emits_return emits_raise_TypeError)

lemma emits_save_validations:
  "emits (save_validations self lib validation) [MkdirStep, WriteStep]"
  unfolding save_validations_def Let_def
  by (intro emits_then_quiet[OF emits_ge_data_context]
        emits_then_quiet[OF emits_kedro_dataset_path]
        emits_then_quiet[OF emits_normalize_data_asset]
        emits_then_quiet[OF emits_lift] no_fve_dict_getitem
        emits_then_quiet[OF emits_suite_file_name]
        emits_then_quiet[OF emits_getcwd]
        emits_then_step[OF emits_path_mkdir] emits_open_write)

text \<open>The failure policy adds one log record whenever it runs to its end, and leaves the
  files alone.\<close>

lemma raise_on_failure_shape:
  "\<exists>new. events (snd (raise_on_failure self validation w)) = events w @ new \<and>
         fs (snd (raise_on_failure self validation w)) = fs w \<and>
         (new = [] \<or> (\<exists>lvl msg. new = [Logged ''ExpectationsEvaluator'' lvl msg])) \<and>
         (completed (fst (raise_on_failure self validation w)) \<longrightarrow>
            (\<exists>lvl msg. new = [Logged ''ExpectationsEvaluator'' lvl msg]))"
proof (cases "success validation")
  case True
  then show ?thesis by (simp add: raise_on_failure_success)
next
  case False
  show ?thesis
  proof (cases "break_on_failure self")
    case lenient: False
    with False show ?thesis by (simp add: raise_on_failure_lenient_failed)
  next
    case True
    show ?thesis
    proof (cases "failed_validations_comprehension (results validation) []")
      case (Inl e)
      have "no_fve (failed_validations_comprehension (results validation) [])"
        using failed_validations_missing[of "results validation" "[]"]
          failed_validations_fold[of "results validation" "[]"]
        by (cases "\<exists>r \<in> set (results validation). missing_column r")
           (auto simp: no_fve_def)
      with Inl have "\<not> completed (Inl e :: error + unit)"
        by (cases e) (simp_all add: no_fve_def completed_def)
      with Inl True False show ?thesis by (simp add: raise_on_failure_strict_failed)
    next
      case (Inr failed)
      with True False show ?thesis by (simp add: raise_on_failure_strict_failed)
    qed
  qed
qed

lemma finishes_raise_on_failure: "finishes (raise_on_failure self validation) [LogStep]"
  unfolding finishes_def
proof
  fix w
  let ?r = "raise_on_failure self validation w"
  from raise_on_failure_shape[of self validation w] obtain new where
    shape: "events (snd ?r) = events w @ new \<and> fs (snd ?r) = fs w \<and>
         (new = [] \<or> (\<exists>lvl msg. new = [Logged ''ExpectationsEvaluator'' lvl msg])) \<and>
         (completed (fst ?r) \<longrightarrow> (\<exists>lvl msg. new = [Logged ''ExpectationsEvaluator'' lvl msg]))" ..
  then have e: "events (snd ?r) = events w @ new" by (rule conjunct1)
  from shape have s: "new = [] \<or> (\<exists>lvl msg. new = [Logged ''ExpectationsEvaluator'' lvl msg])"
    by (elim conjE)
  from shape have c: "completed (fst ?r) \<longrightarrow>
                        (\<exists>lvl msg. new = [Logged ''ExpectationsEvaluator'' lvl msg])"
    by (elim conjE)
  have m: "map step_of new = [LogStep]"
    if "\<exists>lvl msg. new = [Logged ''ExpectationsEvaluator'' lvl msg]"
  proof -
    from that obtain lvl msg where "new = [Logged ''ExpectationsEvaluator'' lvl msg]"
      by (elim exE)
    then show ?thesis by simp
  qed
  have p: "prefix (map step_of new) [LogStep]"
  proof (cases "new = []")
    case True
    then show ?thesis by simp
  next
    case False
    with s m show ?thesis by simp
  qed
  have f: "completed (fst ?r) \<longrightarrow> map step_of new = [LogStep]"
    using c m by (intro impI) simp
  show "\<exists>new. events (snd ?r) = events w @ new \<and> prefix (map step_of new) [LogStep] \<and>
          (completed (fst ?r) \<longrightarrow> map step_of new = [LogStep])"
    using e p f by (intro exI[of _ new] conjI)
qed

lemma finishes_return: "finishes (return a) []"
  by (simp add: finishes_def return_def)

lemma finishes_raise_then_return:
  "finishes (and_then (raise_on_failure self validation) (\<lambda>_. return data)) [LogStep]"
  unfolding finishes_def
proof
  fix w
  let ?m = "and_then (raise_on_failure self validation) (\<lambda>_. return data)"
  obtain r w1 where rw: "raise_on_failure self validation w = (r, w1)"
    by (cases "raise_on_failure self validation w")
  have ev: "events (snd (?m w)) = events w1"
    by (cases r) (simp_all add: and_then_def rw return_def)
  have co: "completed (fst (?m w)) = completed r"
    by (cases r) (simp_all add: and_then_def rw return_def completed_def split: error.splits)
  from finishes_raise_on_failure[of self validation, unfolded finishes_def, rule_format, of w] rw
  show "\<exists>new. events (snd (?m w)) = events w @ new \<and> prefix (map step_of new) [LogStep] \<and>
          (completed (fst (?m w)) \<longrightarrow> map step_of new = [LogStep])"
    by (simp add: ev co)
qed

lemma finishes_load:
  "finishes (load self lib data_set_name load_callable) transformer_order"
  unfolding load_def transformer_order_def
  by (intro finishes_then_step[OF emits_call_load]
        finishes_then_quiet[OF emits_library_call]
        finishes_then_steps[OF emits_copy_expectations]
        finishes_then_step[OF emits_log_validating]
        finishes_then_step[OF emits_call_validate]
        finishes_then_steps[OF emits_save_validations]
        finishes_raise_then_return)

lemma finishes_save:
  "finishes (save self lib data_set_name save_callable data) transformer_order"
  unfolding save_def transformer_order_def
  by (intro finishes_then_step[OF emits_call_save]
        finishes_then_quiet[OF emits_library_call]
        finishes_then_steps[OF emits_copy_expectations]
        finishes_then_step[OF emits_log_validating]
        finishes_then_step[OF emits_call_validate]
        finishes_then_steps[OF emits_save_validations]
        finishes_raise_on_failure)

text \<open>What the steps of a call that went on have done.\<close>

lemma and_then_InrE:
  assumes "and_then m k w = (Inr b, w')"
  obtains a w1 where "m w = (Inr a, w1)" and "k a w1 = (Inr b, w')"
  using assms by (cases "m w") (auto simp: and_then_def split: sum.splits)

lemma lift_Inr: "lift r w = (Inr a, w') \<Longrightarrow> r = Inr a \<and> w' = w"
  by (simp add: lift_def)

lemma library_call_Inr: "library_call r w = (Inr a, w') \<Longrightarrow> r = Inr a \<and> w' = w"
  by (cases r) (simp_all add: library_call_def)

lemma getcwd_Inr: "getcwd w = (Inr a, w') \<Longrightarrow> a = cwd w \<and> w' = w"
  by (auto simp: getcwd_def)

lemma suite_file_name_Inr:
  "(case v of PStr name \<Rightarrow> return (name @ ''.json'') | _ \<Rightarrow> raise TypeError) w = (Inr a, w')
   \<Longrightarrow> w' = w"
  by (cases v) (simp_all add: return_def raise_def)

lemma ge_data_context_Inr:
  "ge_data_context lib w = (Inr ctxt, w') \<Longrightarrow> cwd w' = cwd w \<and> events w' = events w"
  unfolding ge_data_context_def by (drule library_effect_Inr) simp

lemma normalize_data_asset_Inr:
  assumes "normalize_data_asset lib v w = (Inr n, w')"
  shows "cwd w' = cwd w \<and> events w' = events w"
proof -
  from assms[unfolded normalize_data_asset_def] obtain ctxt w1 where
    g: "ge_data_context lib w = (Inr ctxt, w1)" and
    r: "(case v of
           PStr potential_path \<Rightarrow>
             library_call (normalize_data_asset_name lib ctxt (path_str potential_path))
         | _ \<Rightarrow> raise TypeError) w1 = (Inr n, w')"
    by (rule and_then_InrE)
  from r have "w' = w1"
    by (cases v) (auto simp: raise_def dest: library_call_Inr)
  with ge_data_context_Inr[OF g] show ?thesis by simp
qed

lemma path_mkdir_Inr:
  "path_mkdir p w = (Inr u, w') \<Longrightarrow>
   events w' = events w @ [DirectoryMade p] \<and> cwd w' = cwd w"
  by (cases "mkdir_parents_exist_ok (fs w) p") (auto simp: path_mkdir_def)

lemma open_write_Inr:
  assumes "open_write p c w = (Inr u, w')"
  shows "events w' = events w @ [FileWritten p] \<and> cwd w' = cwd w \<and>
         stat (fs w') p = Inr (File c)"
proof (cases "write_file (fs w) p c")
  case (Inl e)
  with assms show ?thesis by (simp add: open_write_def)
next
  case (Inr f')
  from write_file_Inr(2)[OF Inr] assms Inr show ?thesis by (auto simp: open_write_def)
qed

text \<open>After a copy the paths of the source and of the copy lead to files with the same
  content.\<close>

lemma copy_file_Inr:
  assumes "copy_file src dst w = (Inr u, w')"
  shows "\<exists>t c. events w' = events w @ [FileCopied src t] \<and> cwd w' = cwd w \<and>
               stat (fs w') src = Inr (File c) \<and> stat (fs w') t = Inr (File c)"
proof (cases "shutil_copy (fs w) src dst")
  case (Inl e)
  with assms show ?thesis by (simp add: copy_file_def)
next
  case (Inr ft)
  obtain f' t where ft: "ft = (f', t)" by (cases ft)
  from assms Inr ft have w': "w' = w\<lparr>fs := f', events := events w @ [FileCopied src t]\<rparr>"
    by (auto simp: copy_file_def)
  from shutil_copy_Inr[OF Inr[unfolded ft]] obtain c where
    s: "stat (fs w) src = Inr (File c)" and t: "stat f' t = Inr (File c)" and
    f': "f' = dict_setitem (fs w) (location t) (File c)" and
    nd: "node_at (fs w) (location t) \<noteq> Some Directory"
    by blast
  from t have nt: "node_at f' (location t) = Some (File c)" by (simp add: stat_Inr)
  from s have ls: "lookup (fs w) src = Inr (location src)"
    and ns: "node_at (fs w) (location src) = Some (File c)"
    by (simp_all add: stat_Inr)
  have keep: "node_at f' y = Some Directory" if "node_at (fs w) y = Some Directory" for y
    using that nd by (auto simp: f' node_at_setitem node_at_root)
  from ls keep have "lookup f' src = Inr (location src)" by (rule lookup_mono)
  moreover have "node_at f' (location src) = Some (File c)"
  proof (cases "location src = location t")
    case True
    with nt show ?thesis by simp
  next
    case False
    have "location src \<noteq> []" using ns by (auto simp: node_at_def)
    with False ns show ?thesis by (simp add: f' node_at_setitem)
  qed
  ultimately have "stat f' src = Inr (File c)" by (simp add: stat_Inr)
  with t w' show ?thesis by auto
qed

lemma call_load_Inr:
  "call_load load_callable w = (Inr data, w') \<Longrightarrow>
   load_callable (fs w) = Inr data \<and> w' = w\<lparr>events := events w @ [LoadCalled]\<rparr>"
  by (cases "load_callable (fs w)") (auto simp: call_load_def library_call_def)

lemma call_save_Inr:
  "call_save save_callable data w = (Inr u, w') \<Longrightarrow>
   \<exists>f1. save_callable data (fs w) = Inr f1 \<and>
        w' = w\<lparr>fs := f1, events := events w @ [SaveCalled]\<rparr>"
  by (cases "save_callable data (fs w)") (auto simp: call_save_def)

lemma call_validate_Inr:
  "call_validate lib p suite rid ce rf w = (Inr v, w') \<Longrightarrow>
   validate lib (fs w) (cwd w) p suite rid ce rf = Inr v \<and>
   w' = w\<lparr>events := events w @ [ValidateCalled suite rid ce rf]\<rparr>"
  by (cases "validate lib (fs w) (cwd w) p suite rid ce rf")
     (auto simp: call_validate_def library_call_def)

lemma log_validating_Inr:
  assumes "log_validating self w = (Inr u, w')"
  shows "\<exists>filename. last_part (expectations_suite self) = Inr filename \<and>
           w' = w\<lparr>events := events w @
             [Logged ''ExpectationsEvaluator'' INFO
                (Validating (kedro_dataset_name self) filename)]\<rparr>"
proof -
  from assms[unfolded log_validating_def] obtain filename w1 where
    l: "lift (last_part (expectations_suite self)) w = (Inr filename, w1)" and
    g: "logger ''ExpectationsEvaluator'' INFO (Validating (kedro_dataset_name self) filename) w1 =
          (Inr u, w')"
    by (rule and_then_InrE)
  from lift_Inr[OF l] have "last_part (expectations_suite self) = Inr filename" and "w1 = w"
    by simp_all
  with g show ?thesis by (auto simp: logger_def record_event_def)
qed

text \<open>A copy of the suite that returned: the directory was made, then the file copied
  from the suite's path, and both paths lead to files with the same content.\<close>

lemma copy_expectations_Inr:
  assumes "copy_expectations_to_great_expectations self lib path_to_expectations w = (Inr u, w')"
  shows "\<exists>d t c. events w' = events w @
                   [DirectoryMade d, FileCopied (joinpath (cwd w) (expectations_suite self)) t] \<and>
                 cwd w' = cwd w \<and>
                 stat (fs w') (joinpath (cwd w) (expectations_suite self)) = Inr (File c) \<and>
                 stat (fs w') t = Inr (File c)"
proof -
  from assms[unfolded copy_expectations_to_great_expectations_def Let_def and_then_Inr]
  obtain v w1 n w2 ctxt w3 filename w4 here w5 u6 w6 where
    s1: "kedro_dataset_path self lib w = (Inr v, w1)" and
    s2: "normalize_data_asset lib v w1 = (Inr n, w2)" and
    s3: "ge_data_context lib w2 = (Inr ctxt, w3)" and
    s4: "lift (last_part (expectations_suite self)) w3 = (Inr filename, w4)" and
    s5: "getcwd w4 = (Inr here, w5)" and
    s6: "path_mkdir (joinpath (joinpath (joinpath (joinpath
           (joinpath here (root_directory lib ctxt)) ''expectations'') (datasource n))
           (generator n)) (generator_asset n)) w5 = (Inr u6, w6)" and
    s7: "copy_file (joinpath here (path_str (expectations_suite self)))
           (joinpath (joinpath (joinpath (joinpath (joinpath
              (joinpath here (root_directory lib ctxt)) ''expectations'') (datasource n))
              (generator n)) (generator_asset n)) filename) w6 = (Inr u, w')"
    by (elim exE conjE)
  let ?dir = "joinpath (joinpath (joinpath (joinpath
           (joinpath here (root_directory lib ctxt)) ''expectations'') (datasource n))
           (generator n)) (generator_asset n)"
  have w1: "w1 = w" using s1 by (rule kedro_dataset_path_world)
  from normalize_data_asset_Inr[OF s2] w1 have a2: "cwd w2 = cwd w" "events w2 = events w"
    by simp_all
  from ge_data_context_Inr[OF s3] a2 have a3: "cwd w3 = cwd w" "events w3 = events w"
    by simp_all
  from lift_Inr[OF s4] have w4: "w4 = w3" by simp
  from getcwd_Inr[OF s5] w4 a3 have here: "here = cwd w" and w5: "w5 = w3" by simp_all
  from path_mkdir_Inr[OF s6] w5 a3 have
    a6: "events w6 = events w @ [DirectoryMade ?dir]" "cwd w6 = cwd w"
    by simp_all
  from copy_file_Inr[OF s7] obtain t c where
    e7: "events w' = events w6 @ [FileCopied (joinpath here (path_str (expectations_suite self))) t]"
    and c7: "cwd w' = cwd w6"
    and st: "stat (fs w') (joinpath here (path_str (expectations_suite self))) = Inr (File c)"
            "stat (fs w') t = Inr (File c)"
    by (elim exE conjE)
  have "events w' = events w @
          [DirectoryMade ?dir, FileCopied (joinpath (cwd w) (expectations_suite self)) t]"
    using e7 a6(1) by (simp add: here joinpath_path_str)
  moreover have "cwd w' = cwd w" using c7 a6(2) by simp
  moreover have "stat (fs w') (joinpath (cwd w) (expectations_suite self)) = Inr (File c)"
    using st(1) by (simp add: here joinpath_path_str)
  ultimately show ?thesis using st(2) by (intro exI conjI)
qed

text \<open>A serialisation of the result that returned: the directory was made, then the file
  written, and its path leads to a file holding the result.\<close>

lemma save_validations_Inr:
  assumes "save_validations self lib validation w = (Inr u, w')"
  shows "\<exists>l p. events w' = events w @ [DirectoryMade l, FileWritten p] \<and>
               cwd w' = cwd w \<and>
               stat (fs w') p = Inr (File (ValidationJson validation))"
proof -
  from assms[unfolded save_validations_def Let_def and_then_Inr]
  obtain ctxt w1 v w2 n w3 sname w4 fname w5 here w6 u7 w7 where
    s1: "ge_data_context lib w = (Inr ctxt, w1)" and
    s2: "kedro_dataset_path self lib w1 = (Inr v, w2)" and
    s3: "normalize_data_asset lib v w2 = (Inr n, w3)" and
    s4: "lift (dict_getitem (meta validation) ''expectation_suite_name'') w3 = (Inr sname, w4)" and
    s5: "(case sname of PStr name \<Rightarrow> return (name @ ''.json'') | _ \<Rightarrow> raise TypeError) w4 =
           (Inr fname, w5)" and
    s6: "getcwd w5 = (Inr here, w6)" and
    s7: "path_mkdir (joinpath (joinpath (joinpath (joinpath (joinpath (joinpath
           (joinpath here (root_directory lib ctxt)) ''uncommitted'') ''validations'')
           (run_id self)) (datasource n)) (generator n)) (generator_asset n)) w6 =
           (Inr u7, w7)" and
    s8: "open_write (joinpath (joinpath (joinpath (joinpath (joinpath (joinpath (joinpath
           (joinpath here (root_directory lib ctxt)) ''uncommitted'') ''validations'')
           (run_id self)) (datasource n)) (generator n)) (generator_asset n)) fname)
           (ValidationJson validation) w7 = (Inr u, w')"
    by (elim exE conjE)
  from ge_data_context_Inr[OF s1] have a1: "cwd w1 = cwd w" "events w1 = events w"
    by simp_all
  have w2: "w2 = w1" using s2 by (rule kedro_dataset_path_world)
  from normalize_data_asset_Inr[OF s3] w2 a1 have a3: "cwd w3 = cwd w" "events w3 = events w"
    by simp_all
  from lift_Inr[OF s4] have w4: "w4 = w3" by simp
  from suite_file_name_Inr[OF s5] have w5: "w5 = w4" .
  from getcwd_Inr[OF s6] have w6: "w6 = w5" by simp
  from path_mkdir_Inr[OF s7] w6 w5 w4 a3 obtain l where
    a7: "events w7 = events w @ [DirectoryMade l]" "cwd w7 = cwd w"
    by simp
  from open_write_Inr[OF s8] obtain p where
    a8: "events w' = events w7 @ [FileWritten p]" "cwd w' = cwd w7"
        "stat (fs w') p = Inr (File (ValidationJson validation))"
    by simp
  have "events w' = events w @ [DirectoryMade l, FileWritten p]" using a8(1) a7(1) by simp
  moreover have "cwd w' = cwd w" using a8(2) a7(2) by simp
  ultimately show ?thesis using a8(3) by (intro exI conjI)
qed

lemma raise_on_failure_completed:
  assumes "completed (fst (raise_on_failure self validation w))"
  shows "\<exists>lvl msg. events (snd (raise_on_failure self validation w)) =
                     events w @ [Logged ''ExpectationsEvaluator'' lvl msg] \<and>
                   fs (snd (raise_on_failure self validation w)) = fs w"
proof -
  let ?r = "raise_on_failure self validation w"
  from raise_on_failure_shape[of self validation w] obtain new where
    shape: "events (snd ?r) = events w @ new \<and> fs (snd ?r) = fs w \<and>
         (new = [] \<or> (\<exists>lvl msg. new = [Logged ''ExpectationsEvaluator'' lvl msg])) \<and>
         (completed (fst ?r) \<longrightarrow> (\<exists>lvl msg. new = [Logged ''ExpectationsEvaluator'' lvl msg]))" ..
  from shape have e: "events (snd ?r) = events w @ new" by (rule conjunct1)
  from shape have f: "fs (snd ?r) = fs w" by (elim conjE)
  from shape have "completed (fst ?r) \<longrightarrow>
                     (\<exists>lvl msg. new = [Logged ''ExpectationsEvaluator'' lvl msg])"
    by (elim conjE)
  from this assms have "\<exists>lvl msg. new = [Logged ''ExpectationsEvaluator'' lvl msg]"
    by (rule mp)
  then obtain lvl msg where "new = [Logged ''ExpectationsEvaluator'' lvl msg]"
    by (elim exE)
  with e f show ?thesis by (intro exI[of _ lvl] exI[of _ msg]) simp
qed

lemma raise_then_return_completed:
  assumes "completed (fst (and_then (raise_on_failure self validation) (\<lambda>_. return data) w))"
  shows "\<exists>lvl msg.
           events (snd (and_then (raise_on_failure self validation) (\<lambda>_. return data) w)) =
             events w @ [Logged ''ExpectationsEvaluator'' lvl msg] \<and>
           fs (snd (and_then (raise_on_failure self validation) (\<lambda>_. return data) w)) = fs w"
proof -
  let ?m = "and_then (raise_on_failure self validation) (\<lambda>_. return data)"
  obtain r w1 where rw: "raise_on_failure self validation w = (r, w1)"
    by (cases "raise_on_failure self validation w")
  have sn: "snd (?m w) = w1"
    by (cases r) (simp_all add: and_then_def rw return_def)
  have co: "completed (fst (?m w)) = completed r"
    by (cases r) (simp_all add: and_then_def rw return_def completed_def split: error.splits)
  from assms co rw have "completed (fst (raise_on_failure self validation w))" by simp
  from raise_on_failure_completed[OF this] show ?thesis
    unfolding sn by (simp add: rw)
qed

lemma completed_and_then:
  assumes "emits m s" and "completed (fst (and_then m k w))"
  shows "\<exists>a w1. m w = (Inr a, w1) \<and> and_then m k w = k a w1"
proof -
  obtain r w1 where mw: "m w = (r, w1)" by (cases "m w")
  from assms(1)[unfolded emits_def, rule_format, of w] mw have nf: "no_fve r" by simp
  show ?thesis
  proof (cases r)
    case (Inl e)
    then have "and_then m k w = (Inl e, w1)" by (simp add: and_then_def mw)
    with assms(2) have "completed (Inl e :: error + 'b)" by simp
    with nf Inl show ?thesis by (cases e) (simp_all add: completed_def no_fve_def)
  next
    case (Inr a)
    then have "and_then m k w = k a w1" by (simp add: and_then_def mw)
    with mw Inr show ?thesis by simp
  qed
qed

text \<open>From validation on, \<open>load\<close> and \<open>save\<close> run the same steps: validation sees the
  files as the copy left them, its result is what is serialised, and the policy comes
  last.\<close>

lemma validated_completed:
  assumes c: "completed (fst (and_then (call_validate lib expectations_data
                 (expectations_suite self) (run_id self) True ''COMPLETE'') (\<lambda>validation.
               and_then (save_validations self lib validation) (\<lambda>_. policy validation)) w))"
  shows "\<exists>validation w5 l p.
           validate lib (fs w) (cwd w) expectations_data (expectations_suite self) (run_id self)
             True ''COMPLETE'' = Inr validation \<and>
           save_validations self lib validation
             (w\<lparr>events := events w @
                  [ValidateCalled (expectations_suite self) (run_id self) True ''COMPLETE'']\<rparr>) =
             (Inr (), w5) \<and>
           events w5 = events w @
             [ValidateCalled (expectations_suite self) (run_id self) True ''COMPLETE'',
              DirectoryMade l, FileWritten p] \<and>
           stat (fs w5) p = Inr (File (ValidationJson validation)) \<and>
           and_then (call_validate lib expectations_data
                 (expectations_suite self) (run_id self) True ''COMPLETE'') (\<lambda>validation.
               and_then (save_validations self lib validation) (\<lambda>_. policy validation)) w =
             policy validation w5"
proof -
  from completed_and_then[OF emits_call_validate c] obtain validation w4 where
    s4: "call_validate lib expectations_data (expectations_suite self) (run_id self)
           True ''COMPLETE'' w = (Inr validation, w4)" and
    q4: "and_then (call_validate lib expectations_data
                 (expectations_suite self) (run_id self) True ''COMPLETE'') (\<lambda>validation.
               and_then (save_validations self lib validation) (\<lambda>_. policy validation)) w =
         and_then (save_validations self lib validation) (\<lambda>_. policy validation) w4"
    by (elim exE conjE)
  from c have c4: "completed (fst (and_then (save_validations self lib validation)
                                     (\<lambda>_. policy validation) w4))"
    unfolding q4 .
  from completed_and_then[OF emits_save_validations c4] obtain u5 w5 where
    s5: "save_validations self lib validation w4 = (Inr u5, w5)" and
    q5: "and_then (save_validations self lib validation) (\<lambda>_. policy validation) w4 =
         policy validation w5"
    by (elim exE conjE)
  from call_validate_Inr[OF s4] have
    v: "validate lib (fs w) (cwd w) expectations_data (expectations_suite self) (run_id self)
          True ''COMPLETE'' = Inr validation" and
    w4: "w4 = w\<lparr>events := events w @
           [ValidateCalled (expectations_suite self) (run_id self) True ''COMPLETE'']\<rparr>"
    by simp_all
  from save_validations_Inr[OF s5] obtain l p where
    e5: "events w5 = events w4 @ [DirectoryMade l, FileWritten p]" and
    f5: "stat (fs w5) p = Inr (File (ValidationJson validation))"
    by (elim exE conjE)
  have e: "events w5 = events w @
             [ValidateCalled (expectations_suite self) (run_id self) True ''COMPLETE'',
              DirectoryMade l, FileWritten p]"
    by (simp add: e5 w4)
  have s: "save_validations self lib validation
             (w\<lparr>events := events w @
                  [ValidateCalled (expectations_suite self) (run_id self) True ''COMPLETE'']\<rparr>) =
             (Inr (), w5)"
    using s5 by (simp add: w4)
  from v s e f5 show ?thesis unfolding q4 q5 by (intro exI conjI) simp_all
qed

lemma raise_then_return_value:
  "fst (and_then (raise_on_failure self validation) (\<lambda>_. return data) w) = Inr x \<Longrightarrow> x = data"
  by (cases "raise_on_failure self validation w")
     (auto simp: and_then_def return_def split: sum.splits)

lemma load_completed:
  fixes lib :: "('d, 'p, 'c) library" and load_callable :: "fs \<Rightarrow> string + 'd"
  assumes c: "completed (fst (load self lib data_set_name load_callable w))"
  shows "\<exists>data expectations_data w2 d t c filename validation w5 l p lvl msg.
           load_callable (fs w) = Inr data \<and>
           PandasDataset lib data = Inr expectations_data \<and>
           copy_expectations_to_great_expectations self lib (expectations_suite self)
             (w\<lparr>events := events w @ [LoadCalled]\<rparr>) = (Inr (), w2) \<and>
           stat (fs w2) (joinpath (cwd w) (expectations_suite self)) = Inr (File c) \<and>
           stat (fs w2) t = Inr (File c) \<and>
           last_part (expectations_suite self) = Inr filename \<and>
           validate lib (fs w2) (cwd w) expectations_data (expectations_suite self) (run_id self)
             True ''COMPLETE'' = Inr validation \<and>
           save_validations self lib validation
             (w2\<lparr>events := events w2 @
                [Logged ''ExpectationsEvaluator'' INFO
                   (Validating (kedro_dataset_name self) filename),
                 ValidateCalled (expectations_suite self) (run_id self) True ''COMPLETE'']\<rparr>) =
             (Inr (), w5) \<and>
           stat (fs w5) p = Inr (File (ValidationJson validation)) \<and>
           load self lib data_set_name load_callable w =
             and_then (raise_on_failure self validation) (\<lambda>_. return data) w5 \<and>
           fs (snd (load self lib data_set_name load_callable w)) = fs w5 \<and>
           events (snd (load self lib data_set_name load_callable w)) = events w @
             [LoadCalled, DirectoryMade d,
              FileCopied (joinpath (cwd w) (expectations_suite self)) t,
              Logged ''ExpectationsEvaluator'' INFO (Validating (kedro_dataset_name self) filename),
              ValidateCalled (expectations_suite self) (run_id self) True ''COMPLETE'',
              DirectoryMade l, FileWritten p, Logged ''ExpectationsEvaluator'' lvl msg] \<and>
           (\<forall>x. fst (load self lib data_set_name load_callable w) = Inr x \<longrightarrow> x = data)"
proof -
  define policy where
    "policy \<equiv> \<lambda>(data :: 'd) validation.
       and_then (raise_on_failure self validation) (\<lambda>_. return data)"
  define k4 where
    "k4 \<equiv> \<lambda>(data :: 'd) (expectations_data :: 'p).
       and_then (call_validate lib expectations_data (expectations_suite self) (run_id self)
                   True ''COMPLETE'') (\<lambda>validation.
         and_then (save_validations self lib validation) (\<lambda>_. policy data validation))"
  define k3 where
    "k3 \<equiv> \<lambda>(data :: 'd) (expectations_data :: 'p).
       and_then (log_validating self) (\<lambda>_. k4 data expectations_data)"
  define k2 where
    "k2 \<equiv> \<lambda>(data :: 'd) (expectations_data :: 'p).
       and_then (copy_expectations_to_great_expectations self lib (expectations_suite self))
         (\<lambda>_. k3 data expectations_data)"
  define k1 where
    "k1 \<equiv> \<lambda>data :: 'd. and_then (library_call (PandasDataset lib data)) (k2 data)"
  have unfold: "load self lib data_set_name load_callable = and_then (call_load load_callable) k1"
    by (simp add: load_def k1_def k2_def k3_def k4_def policy_def)
  let ?run = "load self lib data_set_name load_callable w"
  have c0: "completed (fst (and_then (call_load load_callable) k1 w))"
    using c by (simp add: unfold)
  from completed_and_then[OF emits_call_load c0] obtain data w1 where
    s1: "call_load load_callable w = (Inr data, w1)" and
    q1: "and_then (call_load load_callable) k1 w = k1 data w1"
    by (elim exE conjE)
  have c1: "completed (fst (and_then (library_call (PandasDataset lib data)) (k2 data) w1))"
    using c0 unfolding q1 by (simp add: k1_def)
  from completed_and_then[OF emits_library_call c1] obtain expectations_data w1' where
    s2: "library_call (PandasDataset lib data) w1 = (Inr expectations_data, w1')" and
    q2: "and_then (library_call (PandasDataset lib data)) (k2 data) w1 =
           k2 data expectations_data w1'"
    by (elim exE conjE)
  have c2: "completed (fst (and_then
              (copy_expectations_to_great_expectations self lib (expectations_suite self))
              (\<lambda>_. k3 data expectations_data) w1'))"
    using c1 unfolding q2 by (simp add: k2_def)
  from completed_and_then[OF emits_copy_expectations c2] obtain u3 w2 where
    s3: "copy_expectations_to_great_expectations self lib (expectations_suite self) w1' =
           (Inr u3, w2)" and
    q3: "and_then (copy_expectations_to_great_expectations self lib (expectations_suite self))
              (\<lambda>_. k3 data expectations_data) w1' = k3 data expectations_data w2"
    by (elim exE conjE)
  have c3: "completed (fst (and_then (log_validating self) (\<lambda>_. k4 data expectations_data) w2))"
    using c2 unfolding q3 by (simp add: k3_def)
  from completed_and_then[OF emits_log_validating c3] obtain u4 w3 where
    s4: "log_validating self w2 = (Inr u4, w3)" and
    q4: "and_then (log_validating self) (\<lambda>_. k4 data expectations_data) w2 =
           k4 data expectations_data w3"
    by (elim exE conjE)
  have "?run = and_then (call_load load_callable) k1 w" by (simp only: unfold)
  also have "\<dots> = and_then (library_call (PandasDataset lib data)) (k2 data) w1"
    unfolding q1 by (simp only: k1_def)
  also have "\<dots> = and_then
              (copy_expectations_to_great_expectations self lib (expectations_suite self))
              (\<lambda>_. k3 data expectations_data) w1'"
    unfolding q2 by (simp only: k2_def)
  also have "\<dots> = and_then (log_validating self) (\<lambda>_. k4 data expectations_data) w2"
    unfolding q3 by (simp only: k3_def)
  also have "\<dots> = k4 data expectations_data w3" by (rule q4)
  finally have run: "?run = k4 data expectations_data w3" .
  have c4: "completed (fst (and_then (call_validate lib expectations_data
                 (expectations_suite self) (run_id self) True ''COMPLETE'') (\<lambda>validation.
               and_then (save_validations self lib validation) (\<lambda>_. policy data validation)) w3))"
    using c3 unfolding q4 by (simp add: k4_def)
  from validated_completed[where policy = "policy data", OF c4]
  obtain validation w5 l p where
    v: "validate lib (fs w3) (cwd w3) expectations_data (expectations_suite self) (run_id self)
          True ''COMPLETE'' = Inr validation" and
    sv: "save_validations self lib validation
           (w3\<lparr>events := events w3 @
                [ValidateCalled (expectations_suite self) (run_id self) True ''COMPLETE'']\<rparr>) =
           (Inr (), w5)" and
    e5: "events w5 = events w3 @
           [ValidateCalled (expectations_suite self) (run_id self) True ''COMPLETE'',
            DirectoryMade l, FileWritten p]" and
    f5: "stat (fs w5) p = Inr (File (ValidationJson validation))" and
    q5: "k4 data expectations_data w3 = policy data validation w5"
    unfolding k4_def by (elim exE conjE)
  have run5: "?run = and_then (raise_on_failure self validation) (\<lambda>_. return data) w5"
    unfolding run q5 by (simp only: policy_def)
  have c5: "completed (fst (and_then (raise_on_failure self validation) (\<lambda>_. return data) w5))"
    using c unfolding run5 .
  from raise_then_return_completed[OF c5] obtain lvl msg where
    e6: "events (snd ?run) = events w5 @ [Logged ''ExpectationsEvaluator'' lvl msg]" and
    f6: "fs (snd ?run) = fs w5"
    unfolding run5 by (elim exE conjE)
  from call_load_Inr[OF s1] have
    lc: "load_callable (fs w) = Inr data" and
    w1: "w1 = w\<lparr>events := events w @ [LoadCalled]\<rparr>"
    by simp_all
  from library_call_Inr[OF s2] have
    pd: "PandasDataset lib data = Inr expectations_data" and w1': "w1' = w1"
    by simp_all
  have u3: "u3 = ()" by simp
  have cp: "copy_expectations_to_great_expectations self lib (expectations_suite self)
             (w\<lparr>events := events w @ [LoadCalled]\<rparr>) = (Inr (), w2)"
    using s3 by (simp add: w1' w1)
  from copy_expectations_Inr[OF s3] obtain d t c where
    e2: "events w2 = events w1' @
           [DirectoryMade d, FileCopied (joinpath (cwd w1') (expectations_suite self)) t]" and
    c2w: "cwd w2 = cwd w1'" and
    st: "stat (fs w2) (joinpath (cwd w1') (expectations_suite self)) = Inr (File c)"
        "stat (fs w2) t = Inr (File c)"
    by (elim exE conjE)
  have cw: "cwd w1' = cwd w" by (simp add: w1' w1)
  from log_validating_Inr[OF s4] obtain filename where
    lp: "last_part (expectations_suite self) = Inr filename" and
    w3: "w3 = w2\<lparr>events := events w2 @
           [Logged ''ExpectationsEvaluator'' INFO
              (Validating (kedro_dataset_name self) filename)]\<rparr>"
    by (elim exE conjE)
  have v': "validate lib (fs w2) (cwd w) expectations_data (expectations_suite self)
              (run_id self) True ''COMPLETE'' = Inr validation"
    using v by (simp add: w3 c2w cw)
  have sv': "save_validations self lib validation
             (w2\<lparr>events := events w2 @
                [Logged ''ExpectationsEvaluator'' INFO
                   (Validating (kedro_dataset_name self) filename),
                 ValidateCalled (expectations_suite self) (run_id self) True ''COMPLETE'']\<rparr>) =
             (Inr (), w5)"
    using sv by (simp add: w3)
  have ev: "events (snd ?run) = events w @
             [LoadCalled, DirectoryMade d,
              FileCopied (joinpath (cwd w) (expectations_suite self)) t,
              Logged ''ExpectationsEvaluator'' INFO (Validating (kedro_dataset_name self) filename),
              ValidateCalled (expectations_suite self) (run_id self) True ''COMPLETE'',
              DirectoryMade l, FileWritten p, Logged ''ExpectationsEvaluator'' lvl msg]"
    by (simp add: e6 e5 w3 e2 cw w1' w1)
  have st1: "stat (fs w2) (joinpath (cwd w) (expectations_suite self)) = Inr (File c)"
    using st(1) by (simp add: cw)
  have val: "\<forall>x. fst ?run = Inr x \<longrightarrow> x = data"
    unfolding run5 by (intro allI impI) (rule raise_then_return_value)
  from lc pd cp st1 st(2) lp v' sv' f5 run5 f6 ev val show ?thesis
    by (intro exI conjI)
qed

lemma save_completed:
  fixes lib :: "('d, 'p, 'c) library" and save_callable :: "'d \<Rightarrow> fs \<Rightarrow> string + fs"
    and data :: 'd
  assumes c: "completed (fst (save self lib data_set_name save_callable data w))"
  shows "\<exists>f1 expectations_data w2 d t c filename validation w5 l p lvl msg.
           save_callable data (fs w) = Inr f1 \<and>
           copy_expectations_to_great_expectations self lib (expectations_suite self)
             (w\<lparr>fs := f1, events := events w @ [SaveCalled]\<rparr>) = (Inr (), w2) \<and>
           stat (fs w2) (joinpath (cwd w) (expectations_suite self)) = Inr (File c) \<and>
           stat (fs w2) t = Inr (File c) \<and>
           PandasDataset lib data = Inr expectations_data \<and>
           last_part (expectations_suite self) = Inr filename \<and>
           validate lib (fs w2) (cwd w) expectations_data (expectations_suite self) (run_id self)
             True ''COMPLETE'' = Inr validation \<and>
           save_validations self lib validation
             (w2\<lparr>events := events w2 @
                [Logged ''ExpectationsEvaluator'' INFO
                   (Validating (kedro_dataset_name self) filename),
                 ValidateCalled (expectations_suite self) (run_id self) True ''COMPLETE'']\<rparr>) =
             (Inr (), w5) \<and>
           stat (fs w5) p = Inr (File (ValidationJson validation)) \<and>
           save self lib data_set_name save_callable data w =
             raise_on_failure self validation w5 \<and>
           fs (snd (save self lib data_set_name save_callable data w)) = fs w5 \<and>
           events (snd (save self lib data_set_name save_callable data w)) = events w @
             [SaveCalled, DirectoryMade d,
              FileCopied (joinpath (cwd w) (expectations_suite self)) t,
              Logged ''ExpectationsEvaluator'' INFO (Validating (kedro_dataset_name self) filename),
              ValidateCalled (expectations_suite self) (run_id self) True ''COMPLETE'',
              DirectoryMade l, FileWritten p, Logged ''ExpectationsEvaluator'' lvl msg]"
proof -
  define k4 where
    "k4 \<equiv> \<lambda>expectations_data :: 'p.
       and_then (call_validate lib expectations_data (expectations_suite self) (run_id self)
                   True ''COMPLETE'') (\<lambda>validation.
         and_then (save_validations self lib validation) (\<lambda>_. raise_on_failure self validation))"
  define k3 where
    "k3 \<equiv> \<lambda>expectations_data :: 'p.
       and_then (log_validating self) (\<lambda>_. k4 expectations_data)"
  define k2 where
    "k2 \<equiv> \<lambda>u :: unit. and_then (library_call (PandasDataset lib data)) k3"
  define k1 where
    "k1 \<equiv> \<lambda>u :: unit.
       and_then (copy_expectations_to_great_expectations self lib (expectations_suite self)) k2"
  have unfold: "save self lib data_set_name save_callable data =
                  and_then (call_save save_callable data) k1"
    by (simp add: save_def k1_def k2_def k3_def k4_def)
  let ?run = "save self lib data_set_name save_callable data w"
  have c0: "completed (fst (and_then (call_save save_callable data) k1 w))"
    using c by (simp add: unfold)
  from completed_and_then[OF emits_call_save c0] obtain u1 w1 where
    s1: "call_save save_callable data w = (Inr u1, w1)" and
    q1: "and_then (call_save save_callable data) k1 w = k1 u1 w1"
    by (elim exE conjE)
  have c1: "completed (fst (and_then
              (copy_expectations_to_great_expectations self lib (expectations_suite self)) k2 w1))"
    using c0 unfolding q1 by (simp add: k1_def)
  from completed_and_then[OF emits_copy_expectations c1] obtain u2 w2 where
    s2: "copy_expectations_to_great_expectations self lib (expectations_suite self) w1 =
           (Inr u2, w2)" and
    q2: "and_then (copy_expectations_to_great_expectations self lib (expectations_suite self))
           k2 w1 = k2 u2 w2"
    by (elim exE conjE)
  have c2: "completed (fst (and_then (library_call (PandasDataset lib data)) k3 w2))"
    using c1 unfolding q2 by (simp add: k2_def)
  from completed_and_then[OF emits_library_call c2] obtain expectations_data w2' where
    s3: "library_call (PandasDataset lib data) w2 = (Inr expectations_data, w2')" and
    q3: "and_then (library_call (PandasDataset lib data)) k3 w2 = k3 expectations_data w2'"
    by (elim exE conjE)
  have c3: "completed (fst (and_then (log_validating self) (\<lambda>_. k4 expectations_data) w2'))"
    using c2 unfolding q3 by (simp add: k3_def)
  from completed_and_then[OF emits_log_validating c3] obtain u4 w3 where
    s4: "log_validating self w2' = (Inr u4, w3)" and
    q4: "and_then (log_validating self) (\<lambda>_. k4 expectations_data) w2' = k4 expectations_data w3"
    by (elim exE conjE)
  have "?run = and_then (call_save save_callable data) k1 w" by (simp only: unfold)
  also have "\<dots> = and_then
              (copy_expectations_to_great_expectations self lib (expectations_suite self)) k2 w1"
    unfolding q1 by (simp only: k1_def)
  also have "\<dots> = and_then (library_call (PandasDataset lib data)) k3 w2"
    unfolding q2 by (simp only: k2_def)
  also have "\<dots> = and_then (log_validating self) (\<lambda>_. k4 expectations_data) w2'"
    unfolding q3 by (simp only: k3_def)
  also have "\<dots> = k4 expectations_data w3" by (rule q4)
  finally have run: "?run = k4 expectations_data w3" .
  have c4: "completed (fst (and_then (call_validate lib expectations_data
                 (expectations_suite self) (run_id self) True ''COMPLETE'') (\<lambda>validation.
               and_then (save_validations self lib validation)
                 (\<lambda>_. raise_on_failure self validation)) w3))"
    using c3 unfolding q4 by (simp add: k4_def)
  from validated_completed[where policy = "raise_on_failure self", OF c4]
  obtain validation w5 l p where
    v: "validate lib (fs w3) (cwd w3) expectations_data (expectations_suite self) (run_id self)
          True ''COMPLETE'' = Inr validation" and
    sv: "save_validations self lib validation
           (w3\<lparr>events := events w3 @
                [ValidateCalled (expectations_suite self) (run_id self) True ''COMPLETE'']\<rparr>) =
           (Inr (), w5)" and
    e5: "events w5 = events w3 @
           [ValidateCalled (expectations_suite self) (run_id self) True ''COMPLETE'',
            DirectoryMade l, FileWritten p]" and
    f5: "stat (fs w5) p = Inr (File (ValidationJson validation))" and
    q5: "k4 expectations_data w3 = raise_on_failure self validation w5"
    unfolding k4_def by (elim exE conjE)
  have run5: "?run = raise_on_failure self validation w5"
    unfolding run q5 ..
  have c5: "completed (fst (raise_on_failure self validation w5))"
    using c unfolding run5 .
  from raise_on_failure_completed[OF c5] obtain lvl msg where
    e6: "events (snd ?run) = events w5 @ [Logged ''ExpectationsEvaluator'' lvl msg]" and
    f6: "fs (snd ?run) = fs w5"
    unfolding run5 by (elim exE conjE)
  from call_save_Inr[OF s1] obtain f1 where
    sc: "save_callable data (fs w) = Inr f1" and
    w1: "w1 = w\<lparr>fs := f1, events := events w @ [SaveCalled]\<rparr>"
    by (elim exE conjE)
  have cp: "copy_expectations_to_great_expectations self lib (expectations_suite self)
             (w\<lparr>fs := f1, events := events w @ [SaveCalled]\<rparr>) = (Inr (), w2)"
    using s2 by (simp add: w1)
  from copy_expectations_Inr[OF s2] obtain d t c where
    e2: "events w2 = events w1 @
           [DirectoryMade d, FileCopied (joinpath (cwd w1) (expectations_suite self)) t]" and
    c2w: "cwd w2 = cwd w1" and
    st: "stat (fs w2) (joinpath (cwd w1) (expectations_suite self)) = Inr (File c)"
        "stat (fs w2) t = Inr (File c)"
    by (elim exE conjE)
  have cw: "cwd w1 = cwd w" by (simp add: w1)
  from library_call_Inr[OF s3] have
    pd: "PandasDataset lib data = Inr expectations_data" and w2': "w2' = w2"
    by simp_all
  from log_validating_Inr[OF s4] obtain filename where
    lp: "last_part (expectations_suite self) = Inr filename" and
    w3: "w3 = w2'\<lparr>events := events w2' @
           [Logged ''ExpectationsEvaluator'' INFO
              (Validating (kedro_dataset_name self) filename)]\<rparr>"
    by (elim exE conjE)
  have v': "validate lib (fs w2) (cwd w) expectations_data (expectations_suite self)
              (run_id self) True ''COMPLETE'' = Inr validation"
    using v by (simp add: w3 w2' c2w cw)
  have sv': "save_validations self lib validation
             (w2\<lparr>events := events w2 @
                [Logged ''ExpectationsEvaluator'' INFO
                   (Validating (kedro_dataset_name self) filename),
                 ValidateCalled (expectations_suite self) (run_id self) True ''COMPLETE'']\<rparr>) =
             (Inr (), w5)"
    using sv by (simp add: w3 w2')
  have ev: "events (snd ?run) = events w @
             [SaveCalled, DirectoryMade d,
              FileCopied (joinpath (cwd w) (expectations_suite self)) t,
              Logged ''ExpectationsEvaluator'' INFO (Validating (kedro_dataset_name self) filename),
              ValidateCalled (expectations_suite self) (run_id self) True ''COMPLETE'',
              DirectoryMade l, FileWritten p, Logged ''ExpectationsEvaluator'' lvl msg]"
    by (simp add: e6 e5 w3 w2' e2 cw w1)
  have st1: "stat (fs w2) (joinpath (cwd w) (expectations_suite self)) = Inr (File c)"
    using st(1) by (simp add: cw)
  from sc cp st1 st(2) pd lp v' sv' f5 run5 f6 ev show ?thesis
    by (intro exI conjI)
qed

text \<open>
  Claim C5. On every \<open>load\<close> and every \<open>save\<close> the steps come in this order: the
  underlying callable, the copy of the suite file into the validation tool's layout,
  validation with full result detail, the result file, the failure policy. Whatever
  happens, the events of a call are a prefix of that order. A call that runs to its end,
  by returning or by raising the strict-mode exception, has taken every step on what the
  step before left. The callable ran on the file system the call found, and \<open>load\<close>
  returns what the callable returned. The suite was copied on the file system that the
  callable left, and afterwards the suite's path and the path of the copy lead to files
  with the same content. Validation was asked for the result format \<^verbatim>\<open>COMPLETE\<close> on the
  wrapped data and on the files as the copy left them; its result is what was
  serialised, and the path of the result file leads to a file that holds it. The failure
  policy came last and left the files alone: the result file is written before the
  strict-mode exception is raised.
\<close>

theorem transformer_steps_in_order:
  fixes lib :: "('d, 'p, 'c) library" and load_callable :: "fs \<Rightarrow> string + 'd"
    and save_callable :: "'d \<Rightarrow> fs \<Rightarrow> string + fs" and data :: 'd
  shows
  "(\<exists>new. events (snd (load self lib data_set_name load_callable w)) = events w @ new \<and>
          prefix (map step_of new) transformer_order) \<and>
   (completed (fst (load self lib data_set_name load_callable w)) \<longrightarrow>
      (\<exists>loaded expectations_data w2 d t c filename validation w5 l p lvl msg.
         load_callable (fs w) = Inr loaded \<and>
         PandasDataset lib loaded = Inr expectations_data \<and>
         copy_expectations_to_great_expectations self lib (expectations_suite self)
           (w\<lparr>events := events w @ [LoadCalled]\<rparr>) = (Inr (), w2) \<and>
         stat (fs w2) (joinpath (cwd w) (expectations_suite self)) = Inr (File c) \<and>
         stat (fs w2) t = Inr (File c) \<and>
         last_part (expectations_suite self) = Inr filename \<and>
         validate lib (fs w2) (cwd w) expectations_data (expectations_suite self) (run_id self)
           True ''COMPLETE'' = Inr validation \<and>
         save_validations self lib validation
           (w2\<lparr>events := events w2 @
              [Logged ''ExpectationsEvaluator'' INFO
                 (Validating (kedro_dataset_name self) filename),
               ValidateCalled (expectations_suite self) (run_id self) True ''COMPLETE'']\<rparr>) =
           (Inr (), w5) \<and>
         stat (fs w5) p = Inr (File (ValidationJson validation)) \<and>
         load self lib data_set_name load_callable w =
           and_then (raise_on_failure self validation) (\<lambda>_. return loaded) w5 \<and>
         fs (snd (load self lib data_set_name load_callable w)) = fs w5 \<and>
         events (snd (load self lib data_set_name load_callable w)) = events w @
           [LoadCalled, DirectoryMade d,
            FileCopied (joinpath (cwd w) (expectations_suite self)) t,
            Logged ''ExpectationsEvaluator'' INFO (Validating (kedro_dataset_name self) filename),
            ValidateCalled (expectations_suite self) (run_id self) True ''COMPLETE'',
            DirectoryMade l, FileWritten p, Logged ''ExpectationsEvaluator'' lvl msg] \<and>
         (\<forall>x. fst (load self lib data_set_name load_callable w) = Inr x \<longrightarrow> x = loaded))) \<and>
   (\<exists>new. events (snd (save self lib data_set_name save_callable data w)) = events w @ new \<and>
          prefix (map step_of new) transformer_order) \<and>
   (completed (fst (save self lib data_set_name save_callable data w)) \<longrightarrow>
      (\<exists>f1 expectations_data w2 d t c filename validation w5 l p lvl msg.
         save_callable data (fs w) = Inr f1 \<and>
         copy_expectations_to_great_expectations self lib (expectations_suite self)
           (w\<lparr>fs := f1, events := events w @ [SaveCalled]\<rparr>) = (Inr (), w2) \<and>
         stat (fs w2) (joinpath (cwd w) (expectations_suite self)) = Inr (File c) \<and>
         stat (fs w2) t = Inr (File c) \<and>
         PandasDataset lib data = Inr expectations_data \<and>
         last_part (expectations_suite self) = Inr filename \<and>
         validate lib (fs w2) (cwd w) expectations_data (expectations_suite self) (run_id self)
           True ''COMPLETE'' = Inr validation \<and>
         save_validations self lib validation
           (w2\<lparr>events := events w2 @
              [Logged ''ExpectationsEvaluator'' INFO
                 (Validating (kedro_dataset_name self) filename),
               ValidateCalled (expectations_suite self) (run_id self) True ''COMPLETE'']\<rparr>) =
           (Inr (), w5) \<and>
         stat (fs w5) p = Inr (File (ValidationJson validation)) \<and>
         save self lib data_set_name save_callable data w =
           raise_on_failure self validation w5 \<and>
         fs (snd (save self lib data_set_name save_callable data w)) = fs w5 \<and>
         events (snd (save self lib data_set_name save_callable data w)) = events w @
           [SaveCalled, DirectoryMade d,
            FileCopied (joinpath (cwd w) (expectations_suite self)) t,
            Logged ''ExpectationsEvaluator'' INFO (Validating (kedro_dataset_name self) filename),
            ValidateCalled (expectations_suite self) (run_id self) True ''COMPLETE'',
            DirectoryMade l, FileWritten p, Logged ''ExpectationsEvaluator'' lvl msg]))"
proof -
  from finishes_load[of self lib data_set_name load_callable, unfolded finishes_def,
      rule_format, of w]
  obtain new where
    "events (snd (load self lib data_set_name load_callable w)) = events w @ new \<and>
     prefix (map step_of new) transformer_order \<and>
     (completed (fst (load self lib data_set_name load_callable w)) \<longrightarrow>
        map step_of new = transformer_order)" ..
  then have l1: "\<exists>new. events (snd (load self lib data_set_name load_callable w)) =
                       events w @ new \<and> prefix (map step_of new) transformer_order"
    by (intro exI[of _ new]) simp
  from finishes_save[of self lib data_set_name save_callable data, unfolded finishes_def,
      rule_format, of w]
  obtain new' where
    "events (snd (save self lib data_set_name save_callable data w)) = events w @ new' \<and>
     prefix (map step_of new') transformer_order \<and>
     (completed (fst (save self lib data_set_name save_callable data w)) \<longrightarrow>
        map step_of new' = transformer_order)" ..
  then have s1: "\<exists>new. events (snd (save self lib data_set_name save_callable data w)) =
                       events w @ new \<and> prefix (map step_of new) transformer_order"
    by (intro exI[of _ new']) simp
  show ?thesis
    by (intro conjI impI l1 s1 load_completed save_completed)
qed

theorem transformer_steps_in_order_witness:
  "fst (load strict_evaluator example_library ''cars'' load_cars example_world) =
     Inl (FailedValidationException []) \<and>
   completed (fst (load strict_evaluator example_library ''cars'' load_cars example_world)) \<and>
   load_cars (fs example_world) = Inr ''rows'' \<and>
   fst (load lenient_evaluator example_library ''cars'' load_cars example_world) = Inr ''rows'' \<and>
   events (snd (load strict_evaluator example_library ''cars'' load_cars example_world)) =
     [LoadCalled, DirectoryMade (butlast cars_suite_copy),
      FileCopied cars_suite_file cars_suite_copy,
      Logged ''ExpectationsEvaluator'' INFO (Validating ''cars'' ''cars.json''),
      ValidateCalled ''suites/cars.json'' ''run1'' True ''COMPLETE'',
      DirectoryMade (butlast cars_result_file), FileWritten cars_result_file,
      Logged ''ExpectationsEvaluator'' ERROR
        (FollowingExpectationsFailed
           [(''expect_column_values_to_not_be_null'', PStr ''price'')])] \<and>
   stat (fs (snd (load strict_evaluator example_library ''cars'' load_cars example_world)))
     cars_suite_copy = Inr (File (Text ''suite'')) \<and>
   stat (fs (snd (load strict_evaluator example_library ''cars'' load_cars example_world)))
     cars_result_file = Inr (File (ValidationJson column_failure)) \<and>
   fst (save lenient_evaluator example_library ''cars'' save_cars ''frame'' example_world) =
     Inr () \<and>
   completed (fst (save lenient_evaluator example_library ''cars'' save_cars ''frame''
                     example_world)) \<and>
   stat (fs example_world) cars_file = Inr (File (Text ''rows'')) \<and>
   stat (fs (snd (save lenient_evaluator example_library ''cars'' save_cars ''frame''
                    example_world))) cars_file = Inr (File (Text ''frame'')) \<and>
   stat (fs (snd (save lenient_evaluator example_library ''cars'' save_cars ''frame''
                    example_world))) cars_result_file =
     Inr (File (ValidationJson column_failure)) \<and>
   map step_of (events (snd (save lenient_evaluator example_library ''cars'' save_cars ''frame''
                               example_world))) = transformer_order"
proof -
  let ?L = "load strict_evaluator example_library ''cars'' load_cars example_world"
  let ?S = "save lenient_evaluator example_library ''cars'' save_cars ''frame'' example_world"
  have a: "fst ?L = Inl (FailedValidationException [])"
    by code_simp
  have b: "completed (fst ?L)"
    by code_simp
  have c: "load_cars (fs example_world) = Inr ''rows''"
    by code_simp
  have d: "fst (load lenient_evaluator example_library ''cars'' load_cars example_world) =
             Inr ''rows''"
    by code_simp
  have e: "events (snd ?L) =
     [LoadCalled, DirectoryMade (butlast cars_suite_copy),
      FileCopied cars_suite_file cars_suite_copy,
      Logged ''ExpectationsEvaluator'' INFO (Validating ''cars'' ''cars.json''),
      ValidateCalled ''suites/cars.json'' ''run1'' True ''COMPLETE'',
      DirectoryMade (butlast cars_result_file), FileWritten cars_result_file,
      Logged ''ExpectationsEvaluator'' ERROR
        (FollowingExpectationsFailed
           [(''expect_column_values_to_not_be_null'', PStr ''price'')])]"
    by code_simp
  have f: "stat (fs (snd ?L)) cars_suite_copy = Inr (File (Text ''suite''))"
    by code_simp
  have g: "stat (fs (snd ?L)) cars_result_file = Inr (File (ValidationJson column_failure))"
    by code_simp
  have h: "fst ?S = Inr ()"
    by code_simp
  have i: "completed (fst ?S)"
    by code_simp
  have j: "stat (fs example_world) cars_file = Inr (File (Text ''rows''))"
    by code_simp
  have k: "stat (fs (snd ?S)) cars_file = Inr (File (Text ''frame''))"
    by code_simp
  have l: "stat (fs (snd ?S)) cars_result_file = Inr (File (ValidationJson column_failure))"
    by code_simp
  have m: "map step_of (events (snd ?S)) = transformer_order"
    by code_simp
  note inst = transformer_steps_in_order
         [of strict_evaluator example_library "''cars''" load_cars example_world
             save_cars "''frame''"]
       transformer_steps_in_order
         [of lenient_evaluator example_library "''cars''" load_cars example_world
             save_cars "''frame''"]
  from inst(1) b have "\<exists>loaded. load_cars (fs example_world) = Inr loaded"
    by blast
  moreover from inst(2) i have "\<exists>f1. save_cars ''frame'' (fs example_world) = Inr f1"
    by blast
  ultimately show ?thesis
    using a b c d e f g h i j k l m by simp
qed

end
